theory Spec2Isabelle
  imports Complex_Main "HOL-Library.Word"
begin

section \<open>The one-page report of tcpflow (src/netviz/one\_page\_report.cpp)\<close>

text \<open>
  The report object accumulates statistics packet by packet (\<open>ingest_packet\<close>) and is
  drawn once at the end (\<open>render\<close> and the steps of \<open>render_pass\<close>). Everything the file
  calls but does not define (the packet decoders of tcpip.h, the histograms, the address
  trees, the packet waterfall, cairo, \<open>ssprintf\<close>) is a parameter of the model: a field of
  type function in the records \<open>collaborators\<close> and \<open>renderer\<close>, over state types that stay
  type variables (\<open>'t\<close> address tree, \<open>'b\<close> bandwidth histogram, \<open>'a\<close> address histogram,
  \<open>'p\<close> port histogram, \<open>'w\<close> packet waterfall, \<open>'cr\<close> cairo context).
\<close>

subsection \<open>Data\<close>

type_synonym u8 = "8 word"
type_synonym u32 = "32 word"
type_synonym u64 = "64 word"

text \<open>
  \<open>struct timeval\<close>: \<open>time_t tv_sec\<close> and \<open>suseconds_t tv_usec\<close> are signed integers whose
  width depends on the platform. The file only copies and compares them, so both are
  \<open>int\<close> and the comparisons are the signed ones.
\<close>

record timeval =
  tv_sec :: int
  tv_usec :: int

text \<open>
  What \<open>ingest_packet\<close> reads of a \<open>packet_info\<close>: the timestamp \<open>pi.ts\<close>, the captured
  length \<open>pi.pcap_hdr->caplen\<close> (a 32-bit unsigned \<open>bpf_u_int32\<close>), the result of
  \<open>pi.ether_type()\<close> as the key type of \<open>transport_counts\<close>, and the \<open>pi.ip_datalen\<close> bytes
  at \<open>pi.ip_data\<close>.
\<close>

record packet_info =
  ts :: timeval
  caplen :: u32
  ether_type :: u32
  ip_data :: "u8 list"

text \<open>
  The output structures of the decoders, as far as this file reads them: the bytes of
  the two address fields of the header, and the payload (\<open>payload\<close>, \<open>payload_len\<close>).
\<close>

record ip4_dgram =
  ip_src :: "u8 list"
  ip_dst :: "u8 list"
  ip4_payload :: "u8 list"

record ip6_dgram =
  ip6_src :: "u8 list"
  ip6_dst :: "u8 list"
  ip6_payload :: "u8 list"

record tcp_seg =
  tcp_header :: "u8 list"
  tcp_payload :: "u8 list"

text \<open>\<open>plot::bounds_t(x, y, width, height)\<close>; \<open>double\<close> is read as a real number.\<close>

record bounds_t =
  bounds_x :: real
  bounds_y :: real
  bounds_width :: real
  bounds_height :: real

text \<open>
  The members of \<open>one_page_report\<close>. \<open>transport_counts\<close> is a
  \<open>std::map<uint32_t, uint64_t>\<close>: a map, with finitely many entries in every report that
  is reached from a new one.
\<close>

record ('t, 'b, 'a, 'p, 'w) one_page_report =
  source_identifier :: string
  filename :: string
  bounds :: bounds_t
  header_font_size :: real
  top_list_font_size :: real
  histogram_show_top_n_text :: nat
  packet_count :: u64
  byte_count :: u64
  earliest :: timeval
  latest :: timeval
  transport_counts :: "u32 \<rightharpoonup> u64"
  bandwidth_histogram :: 'b
  src_addr_histogram :: 'a
  dst_addr_histogram :: 'a
  src_port_histogram :: 'p
  dst_port_histogram :: 'p
  pfall :: 'w
  src_tree :: 't
  dst_tree :: 't

text \<open>
  What \<open>ingest_packet\<close> calls: the three decoders of \<open>tcpip\<close> (a decoder returns \<open>false\<close>
  or fills its output structure: an \<open>option\<close>), \<open>iptree::add(addr, len)\<close>,
  \<open>time_histogram::ingest_packet(pi, optional_tcp)\<close>, \<open>port_histogram::ingest_packet(tcp)\<close>
  and \<open>packetfall::ingest_packet(pi)\<close>. Each call on a collaborator maps its state before
  the call to its state after it.
\<close>

record ('t, 'b, 'p, 'w) collaborators =
  ip4_from_bytes :: "u8 list \<Rightarrow> ip4_dgram option"
  ip6_from_bytes :: "u8 list \<Rightarrow> ip6_dgram option"
  tcp_from_bytes :: "u8 list \<Rightarrow> tcp_seg option"
  iptree_add :: "'t \<Rightarrow> u8 list \<Rightarrow> nat \<Rightarrow> 't"
  time_histogram_ingest :: "'b \<Rightarrow> packet_info \<Rightarrow> tcp_seg option \<Rightarrow> 'b"
  port_histogram_ingest :: "'p \<Rightarrow> tcp_seg \<Rightarrow> 'p"
  packetfall_ingest :: "'w \<Rightarrow> packet_info \<Rightarrow> 'w"

subsection \<open>The transport tally\<close>

text \<open>
  \<open>std::map::operator[]\<close> inserts a value-initialised entry (count 0) for a key that is
  missing, and refers to the key's entry.
\<close>

definition map_subscript :: "('k \<rightharpoonup> u64) \<Rightarrow> 'k \<Rightarrow> ('k \<rightharpoonup> u64)" where
  "map_subscript m k = (case m k of None \<Rightarrow> m(k \<mapsto> 0) | Some v \<Rightarrow> m)"

definition map_count :: "('k \<rightharpoonup> u64) \<Rightarrow> 'k \<Rightarrow> u64" where
  "map_count m k = (case m k of None \<Rightarrow> 0 | Some v \<Rightarrow> v)"

text \<open>\<open>m[k]++\<close>\<close>

definition map_increment :: "('k \<rightharpoonup> u64) \<Rightarrow> 'k \<Rightarrow> ('k \<rightharpoonup> u64)" where
  "map_increment m k = (let m' = map_subscript m k in m'(k \<mapsto> map_count m' k + 1))"

text \<open>
  The loop of \<open>render_header\<close> over \<open>transport_counts\<close> that adds every count to
  \<open>transport_total\<close>, a \<open>uint64_t\<close>.
\<close>

definition transport_total :: "('k \<rightharpoonup> u64) \<Rightarrow> u64" where
  "transport_total m = (\<Sum>k \<in> dom m. map_count m k)"

subsection \<open>Construction and ingestion\<close>

text \<open>
  The constructor. Its arguments are the eight collaborators as the constructor leaves
  them (default-constructed, then titled and configured).
\<close>

definition one_page_report_new ::
  "'b \<Rightarrow> 'a \<Rightarrow> 'a \<Rightarrow> 'p \<Rightarrow> 'p \<Rightarrow> 'w \<Rightarrow> 't \<Rightarrow> 't \<Rightarrow> ('t, 'b, 'a, 'p, 'w) one_page_report" where
  "one_page_report_new bw sa da sp dp pf st dt =
     \<lparr> source_identifier = [],
       filename = ''report.pdf'',
       bounds = \<lparr> bounds_x = 0, bounds_y = 0, bounds_width = 611, bounds_height = 792 \<rparr>,
       header_font_size = 8,
       top_list_font_size = 8,
       histogram_show_top_n_text = 3,
       packet_count = 0,
       byte_count = 0,
       earliest = \<lparr> tv_sec = 0, tv_usec = 0 \<rparr>,
       latest = \<lparr> tv_sec = 0, tv_usec = 0 \<rparr>,
       transport_counts = Map.empty,
       bandwidth_histogram = bw,
       src_addr_histogram = sa,
       dst_addr_histogram = da,
       src_port_histogram = sp,
       dst_port_histogram = dp,
       pfall = pf,
       src_tree = st,
       dst_tree = dt \<rparr>"

text \<open>
  \<open>one_page_report::ingest_packet\<close> in the four parts of its body. First the time range
  (lines 67 to 72) and the counters (lines 74 to 76).
\<close>

definition update_time_range ::
  "('t, 'b, 'a, 'p, 'w) one_page_report \<Rightarrow> packet_info \<Rightarrow> ('t, 'b, 'a, 'p, 'w) one_page_report" where
  "update_time_range r0 pkt =
     (let r = (if tv_sec (earliest r0) = 0 then r0\<lparr>earliest := ts pkt\<rparr> else r0)
      in if tv_sec (latest r) < tv_sec (ts pkt) \<and> tv_usec (latest r) < tv_usec (ts pkt)
         then r\<lparr>latest := ts pkt\<rparr> else r)"

definition update_counters ::
  "('t, 'b, 'a, 'p, 'w) one_page_report \<Rightarrow> packet_info \<Rightarrow> ('t, 'b, 'a, 'p, 'w) one_page_report" where
  "update_counters r0 pkt =
     (let r = r0\<lparr>packet_count := packet_count r0 + 1\<rparr>;
          r = r\<lparr>byte_count := byte_count r + ucast (caplen pkt)\<rparr>
      in r\<lparr>transport_counts := map_increment (transport_counts r) (ether_type pkt)\<rparr>)"

text \<open>
  Lines 78 to 109, ``extract IP and TCP headers''. The result is the three output
  structures, each with its flag (\<open>Some\<close> when \<open>has_ip4_dgram\<close>, \<open>has_ip6_dgram\<close>,
  \<open>has_tcp_seg\<close> is set). IPv6 is tried in the \<open>else\<close> branch of the IPv4 test.
  \<open>tcp_from_bytes\<close> is called on \<open>ip_payload\<close>, which stays the null pointer with length 0
  when neither decoder succeeded.
\<close>

definition extract_headers ::
  "('t, 'b, 'p, 'w) collaborators \<Rightarrow> packet_info
     \<Rightarrow> ip4_dgram option \<times> ip6_dgram option \<times> tcp_seg option" where
  "extract_headers cb pkt =
     (let ip4 = ip4_from_bytes cb (ip_data pkt);
          ip6 = (case ip4 of Some d4 \<Rightarrow> None | None \<Rightarrow> ip6_from_bytes cb (ip_data pkt));
          ip_payload = (case ip4 of Some d4 \<Rightarrow> ip4_payload d4
                        | None \<Rightarrow> (case ip6 of Some d6 \<Rightarrow> ip6_payload d6 | None \<Rightarrow> []))
      in (ip4, ip6, tcp_from_bytes cb ip_payload))"

text \<open>
  Lines 111 to 128, ``pass relevant data structures to children''. \<open>sizeof\<close> of the two
  address fields is 16 (\<open>__u6_addr8\<close>) and 4 (\<open>s_addr\<close>).
\<close>

definition pass_to_children ::
  "('t, 'b, 'p, 'w) collaborators \<Rightarrow> ip4_dgram option \<times> ip6_dgram option \<times> tcp_seg option
     \<Rightarrow> ('t, 'b, 'a, 'p, 'w) one_page_report \<Rightarrow> packet_info
     \<Rightarrow> ('t, 'b, 'a, 'p, 'w) one_page_report" where
  "pass_to_children cb hdrs r0 pkt =
     (case hdrs of (ip4, ip6, optional_tcp) \<Rightarrow>
      let r = (case ip6 of
                 Some d6 \<Rightarrow> r0\<lparr>src_tree := iptree_add cb (src_tree r0) (ip6_src d6) 16,
                              dst_tree := iptree_add cb (dst_tree r0) (ip6_dst d6) 16\<rparr>
               | None \<Rightarrow>
                  (case ip4 of
                     Some d4 \<Rightarrow> r0\<lparr>src_tree := iptree_add cb (src_tree r0) (ip_src d4) 4,
                                  dst_tree := iptree_add cb (dst_tree r0) (ip_dst d4) 4\<rparr>
                   | None \<Rightarrow> r0));
          r = r\<lparr>bandwidth_histogram :=
                    time_histogram_ingest cb (bandwidth_histogram r) pkt optional_tcp\<rparr>;
          r = (case optional_tcp of
                 Some tcp \<Rightarrow> r\<lparr>src_port_histogram := port_histogram_ingest cb (src_port_histogram r) tcp,
                               dst_port_histogram := port_histogram_ingest cb (dst_port_histogram r) tcp\<rparr>
               | None \<Rightarrow> r)
      in r\<lparr>pfall := packetfall_ingest cb (pfall r) pkt\<rparr>)"

definition ingest_packet ::
  "('t, 'b, 'p, 'w) collaborators \<Rightarrow> ('t, 'b, 'a, 'p, 'w) one_page_report \<Rightarrow> packet_info
     \<Rightarrow> ('t, 'b, 'a, 'p, 'w) one_page_report" where
  "ingest_packet cb r pkt =
     pass_to_children cb (extract_headers cb pkt) (update_counters (update_time_range r pkt) pkt) pkt"

text \<open>The capture loop calls \<open>ingest_packet\<close> once per packet, in order.\<close>

definition ingest_all ::
  "('t, 'b, 'p, 'w) collaborators \<Rightarrow> ('t, 'b, 'a, 'p, 'w) one_page_report \<Rightarrow> packet_info list
     \<Rightarrow> ('t, 'b, 'a, 'p, 'w) one_page_report" where
  "ingest_all cb r pkts = foldl (ingest_packet cb) r pkts"


subsection \<open>Rendering: data\<close>

text \<open>
  \<open>double\<close> values are read as real numbers (no infinity, no NaN), and every arithmetic
  operation on them rounds its exact result with \<open>round_double\<close>, a parameter: what is
  proved holds for every rounding function, the one of IEEE 754 included. \<open>max\<close> does not
  round. Where a value is computed on the machine, the rounding function is
  \<open>binary64_round\<close> below.
\<close>

text \<open>\<open>cairo_text_extents_t\<close>\<close>

record text_extents =
  x_bearing :: real
  y_bearing :: real
  extents_width :: real
  extents_height :: real
  x_advance :: real
  y_advance :: real

text \<open>
  The members of \<open>one_page_report::render_pass\<close>. \<open>report\<close> is a reference to the report
  that is rendered: what a step does to it is done to the report itself.
\<close>

record ('cr, 't, 'b, 'a, 'p, 'w) render_pass =
  report :: "('t, 'b, 'a, 'p, 'w) one_page_report"
  surface :: 'cr
  surface_bounds :: bounds_t
  end_of_content :: real

text \<open>
  What the rendering code calls and does not define.
  \<^item> \<open>cairo_pdf_available\<close>: whether \<open>CAIRO_PDF_AVAILABLE\<close> is defined.
  \<^item> The cairo calls. \<open>cairo_pdf_surface_create\<close> stands for the creation of the surface
    and of its context.
  \<^item> The collaborators' \<open>render\<close>, called on members of the report with the context and a
    \<open>bounds_t\<close> variable of the caller: the object, the context, the variable (and for
    \<open>render_iptree\<close> the tree) are returned as the call leaves them. \<open>get_count_sum\<close> and
    \<open>get_top_list\<close> of a histogram's \<open>parent_count_histogram\<close> are read-only queries.
  \<^item> The texts: \<open>title_version\<close> (\<open>PACKAGE " " VERSION\<close>) and the results of \<open>ssprintf\<close>, as
    functions of the integers that the call formats (for \<open>fmt_generated\<close>: of the clock).
    \<open>size_log_1000\<close> is \<open>(uint64_t) (log(byte_count) / log(1000))\<close>, computed by the C
    library in floating point and converted.
  \<^item> \<open>indeterminate_extents\<close>: the values of the two \<open>cairo_text_extents_t\<close> variables that
    \<open>render_dual_histograms_top_n\<close> declares without an initialiser in the body of its
    loop, at the start of an iteration.
  \<^item> \<open>initial_end_of_content\<close>: the cursor as the constructor of \<open>render_pass\<close> sets it.
\<close>

record ('cr, 't, 'b, 'a, 'p, 'w) renderer =
  cairo_pdf_available :: bool
  round_double :: "real \<Rightarrow> real"
  cairo_pdf_surface_create :: "string \<Rightarrow> real \<Rightarrow> real \<Rightarrow> 'cr"
  cairo_translate :: "'cr \<Rightarrow> real \<Rightarrow> real \<Rightarrow> 'cr"
  cairo_set_font_size :: "'cr \<Rightarrow> real \<Rightarrow> 'cr"
  cairo_set_source_rgb :: "'cr \<Rightarrow> real \<Rightarrow> real \<Rightarrow> real \<Rightarrow> 'cr"
  cairo_text_extents :: "'cr \<Rightarrow> string \<Rightarrow> text_extents"
  cairo_move_to :: "'cr \<Rightarrow> real \<Rightarrow> real \<Rightarrow> 'cr"
  cairo_show_text :: "'cr \<Rightarrow> string \<Rightarrow> 'cr"
  time_histogram_render :: "'b \<Rightarrow> 'cr \<Rightarrow> bounds_t \<Rightarrow> 'b \<times> 'cr \<times> bounds_t"
  packetfall_render :: "'w \<Rightarrow> 'cr \<Rightarrow> bounds_t \<Rightarrow> 'w \<times> 'cr \<times> bounds_t"
  address_histogram_render_iptree :: "'a \<Rightarrow> 'cr \<Rightarrow> bounds_t \<Rightarrow> 't \<Rightarrow> 'a \<times> 'cr \<times> bounds_t \<times> 't"
  port_histogram_render :: "'p \<Rightarrow> 'cr \<Rightarrow> bounds_t \<Rightarrow> 'p \<times> 'cr \<times> bounds_t"
  address_count_sum :: "'a \<Rightarrow> u64"
  address_top_list :: "'a \<Rightarrow> (string \<times> u64) list"
  port_count_sum :: "'p \<Rightarrow> u64"
  port_top_list :: "'p \<Rightarrow> (string \<times> u64) list"
  title_version :: string
  fmt_input :: "string \<Rightarrow> string"
  fmt_generated :: string
  fmt_date_range :: "int \<Rightarrow> int \<Rightarrow> string"
  size_log_1000 :: "u64 \<Rightarrow> u64"
  fmt_packets :: "u64 \<Rightarrow> u64 \<Rightarrow> u64 \<Rightarrow> string \<Rightarrow> string"
  fmt_transports :: "u64 \<Rightarrow> u64 \<Rightarrow> u64 \<Rightarrow> u64 \<Rightarrow> string"
  fmt_top_entry :: "nat \<Rightarrow> string \<Rightarrow> u64 \<Rightarrow> u8 \<Rightarrow> string"
  indeterminate_extents ::
    "('cr, 't, 'b, 'a, 'p, 'w) render_pass \<Rightarrow> nat \<Rightarrow> text_extents \<times> text_extents"
  initial_end_of_content :: real

subsection \<open>Rendering: arithmetic and constants\<close>

definition d_add :: "('cr, 't, 'b, 'a, 'p, 'w) renderer \<Rightarrow> real \<Rightarrow> real \<Rightarrow> real" where
  "d_add rn a b = round_double rn (a + b)"

definition d_sub :: "('cr, 't, 'b, 'a, 'p, 'w) renderer \<Rightarrow> real \<Rightarrow> real \<Rightarrow> real" where
  "d_sub rn a b = round_double rn (a - b)"

definition d_mul :: "('cr, 't, 'b, 'a, 'p, 'w) renderer \<Rightarrow> real \<Rightarrow> real \<Rightarrow> real" where
  "d_mul rn a b = round_double rn (a * b)"

text \<open>The divisors of this file are never 0: a constant, or a sum that was tested.\<close>

definition d_div :: "('cr, 't, 'b, 'a, 'p, 'w) renderer \<Rightarrow> real \<Rightarrow> real \<Rightarrow> real" where
  "d_div rn a b = round_double rn (a / b)"

text \<open>\<open>(double) n\<close> for a \<open>uint64_t\<close>\<close>

definition double_of_uint64 :: "('cr, 't, 'b, 'a, 'p, 'w) renderer \<Rightarrow> u64 \<Rightarrow> real" where
  "double_of_uint64 rn n = round_double rn (real (unat n))"

text \<open>
  \<open>(uint8_t) v\<close>: the value is truncated towards zero; the conversion is undefined when
  the truncated value is not one of 0 to 255 (\<open>None\<close>).
\<close>

definition uint8_of_double :: "real \<Rightarrow> u8 option" where
  "uint8_of_double v =
     (let t = (if 0 \<le> v then \<lfloor>v\<rfloor> else \<lceil>v\<rceil>)
      in if 0 \<le> t \<and> t \<le> 255 then Some (word_of_int t) else None)"

text \<open>
  The rounding of the machine, for the places where a result depends on it: IEEE 754
  binary64 in its default mode, to the nearest value, a tie to the one with an even
  significand. A non-zero \<open>x\<close> with the binary exponent \<open>e = \<lfloor>log 2 \<bar>x\<bar>\<rfloor>\<close> has a
  significand of 53 bits, so it is rounded to a multiple of \<open>2 powr (e - 52)\<close>; below the
  exponent -1022 the spacing stays that of the subnormal numbers. From \<open>2 ^ 1024\<close> on the
  format gives an infinity, which is no real number: the function is meant below that.
\<close>

definition round_half_even :: "real \<Rightarrow> int" where
  "round_half_even y =
     (let f = \<lfloor>y\<rfloor>
      in if y - of_int f < 1 / 2 then f
         else if 1 / 2 < y - of_int f then f + 1
         else if even f then f else f + 1)"

definition binary64_round :: "real \<Rightarrow> real" where
  "binary64_round x =
     (if x = 0 then 0
      else (let e = max \<lfloor>log 2 \<bar>x\<bar>\<rfloor> (- 1022);
                q = 2 powr of_int (e - 52)
            in q * of_int (round_half_even (x / q))))"

text \<open>
  The ratio and size constants. All but \<open>page_margin_factor\<close> are doubles exactly; the
  literal 0.05 is rounded when it is compiled.
\<close>

definition page_margin_factor :: "('cr, 't, 'b, 'a, 'p, 'w) renderer \<Rightarrow> real" where
  "page_margin_factor rn = round_double rn (5 / 100)"

definition line_space_factor :: real where
  "line_space_factor = 1 / 4"

definition histogram_pad_factor_y :: real where
  "histogram_pad_factor_y = 1"

definition address_histogram_width_divisor :: real where
  "address_histogram_width_divisor = 5 / 2"

definition bandwidth_histogram_height :: real where
  "bandwidth_histogram_height = 100"

definition address_histogram_height :: real where
  "address_histogram_height = 100"

text \<open>\<open>ETHERTYPE_IP\<close>, \<open>ETHERTYPE_IPV6\<close> and \<open>ETHERTYPE_ARP\<close> of the system's headers.\<close>

definition ETHERTYPE_IP :: u32 where
  "ETHERTYPE_IP = 0x0800"

definition ETHERTYPE_IPV6 :: u32 where
  "ETHERTYPE_IPV6 = 0x86dd"

definition ETHERTYPE_ARP :: u32 where
  "ETHERTYPE_ARP = 0x0806"

definition build_size_suffixes :: "string list" where
  "build_size_suffixes = [''B'', ''KB'', ''MB'', ''GB'', ''TB'', ''PB'', ''EB'']"

definition size_suffixes :: "string list" where
  "size_suffixes = build_size_suffixes"

text \<open>\<open>std::vector::at\<close> throws \<open>std::out_of_range\<close> for an index that is not in range.\<close>

definition vector_at :: "'x list \<Rightarrow> nat \<Rightarrow> 'x option" where
  "vector_at xs i = (if i < length xs then Some (xs ! i) else None)"

subsection \<open>Rendering: the steps\<close>

text \<open>
  The body of every function below stands between \<open>#ifdef CAIRO_PDF_AVAILABLE\<close> and
  \<open>#endif\<close>. \<open>render\<close> is the only caller of the steps, and calls them inside the same
  condition: the definitions of the steps are these bodies, and the condition is
  tested once, in \<open>render\<close>.
\<close>

text \<open>\<open>render_text\<close>; the second component is \<open>rendered_extents\<close>, which the call assigns.\<close>

definition render_text ::
  "('cr, 't, 'b, 'a, 'p, 'w) renderer \<Rightarrow> string \<Rightarrow> real \<Rightarrow> real
     \<Rightarrow> ('cr, 't, 'b, 'a, 'p, 'w) render_pass
     \<Rightarrow> ('cr, 't, 'b, 'a, 'p, 'w) render_pass \<times> text_extents" where
  "render_text rn text font_size x_offset s =
     (let cr = cairo_set_font_size rn (surface s) font_size;
          cr = cairo_set_source_rgb rn cr 0 0 0;
          rendered_extents = cairo_text_extents rn cr text;
          cr = cairo_move_to rn cr x_offset
                 (d_add rn (end_of_content s) (extents_height rendered_extents));
          cr = cairo_show_text rn cr text
      in (s\<lparr>surface := cr\<rparr>, rendered_extents))"

definition render_text_line ::
  "('cr, 't, 'b, 'a, 'p, 'w) renderer \<Rightarrow> string \<Rightarrow> real \<Rightarrow> real
     \<Rightarrow> ('cr, 't, 'b, 'a, 'p, 'w) render_pass \<Rightarrow> ('cr, 't, 'b, 'a, 'p, 'w) render_pass" where
  "render_text_line rn text font_size line_space s =
     (case render_text rn text font_size 0 s of
        (s1, extents) \<Rightarrow>
          s1\<lparr>end_of_content :=
               d_add rn (end_of_content s1) (d_add rn (extents_height extents) line_space)\<rparr>)"

text \<open>
  \<open>render_header\<close>. The result is \<open>None\<close> when \<open>size_suffixes.at\<close> throws. The three counts
  of the last line are read with \<open>operator[]\<close>, which inserts an entry for a tag that
  has none; the total was added up before.
\<close>

definition render_header ::
  "('cr, 't, 'b, 'a, 'p, 'w) renderer \<Rightarrow> ('cr, 't, 'b, 'a, 'p, 'w) render_pass
     \<Rightarrow> ('cr, 't, 'b, 'a, 'p, 'w) render_pass option" where
  "render_header rn s0 =
     (let title_line_space = d_mul rn (header_font_size (report s0)) line_space_factor;
          s = render_text_line rn (title_version rn) (header_font_size (report s0)) title_line_space s0;
          s = render_text_line rn (fmt_input rn (source_identifier (report s)))
                (header_font_size (report s)) title_line_space s;
          s = render_text_line rn (fmt_generated rn) (header_font_size (report s)) title_line_space s;
          s = s\<lparr>end_of_content := d_add rn (end_of_content s) (d_mul rn title_line_space 4)\<rparr>;
          s = render_text_line rn
                (fmt_date_range rn (tv_sec (earliest (report s))) (tv_sec (latest (report s))))
                (header_font_size (report s)) title_line_space s;
          computed = size_log_1000 rn (byte_count (report s));
          size_log = (if length size_suffixes \<le> unat computed then 0 else computed)
      in case vector_at size_suffixes (unat size_log) of
           None \<Rightarrow> None
         | Some suffix \<Rightarrow>
            (let s = render_text_line rn
                       (fmt_packets rn (packet_count (report s)) (byte_count (report s)) size_log suffix)
                       (header_font_size (report s)) title_line_space s;
                 total = transport_total (transport_counts (report s));
                 counts = map_subscript (map_subscript (map_subscript
                            (transport_counts (report s)) ETHERTYPE_IP) ETHERTYPE_IPV6) ETHERTYPE_ARP;
                 s = s\<lparr>report := (report s)\<lparr>transport_counts := counts\<rparr>\<rparr>;
                 s = render_text_line rn
                       (fmt_transports rn (map_count counts ETHERTYPE_IP) (map_count counts ETHERTYPE_IPV6)
                          (map_count counts ETHERTYPE_ARP) total)
                       (header_font_size (report s)) title_line_space s
             in Some (s\<lparr>end_of_content := d_add rn (end_of_content s) (d_mul rn title_line_space 4)\<rparr>)))"

definition render_bandwidth_histogram ::
  "('cr, 't, 'b, 'a, 'p, 'w) renderer \<Rightarrow> ('cr, 't, 'b, 'a, 'p, 'w) render_pass
     \<Rightarrow> ('cr, 't, 'b, 'a, 'p, 'w) render_pass" where
  "render_bandwidth_histogram rn s =
     (case time_histogram_render rn (bandwidth_histogram (report s)) (surface s)
             \<lparr> bounds_x = 0, bounds_y = end_of_content s,
               bounds_width = bounds_width (surface_bounds s),
               bounds_height = bandwidth_histogram_height \<rparr> of
        (h, cr, bnds) \<Rightarrow>
          s\<lparr>report := (report s)\<lparr>bandwidth_histogram := h\<rparr>, surface := cr,
            end_of_content :=
              d_add rn (end_of_content s) (d_mul rn (bounds_height bnds) histogram_pad_factor_y)\<rparr>)"

definition render_packetfall ::
  "('cr, 't, 'b, 'a, 'p, 'w) renderer \<Rightarrow> ('cr, 't, 'b, 'a, 'p, 'w) render_pass
     \<Rightarrow> ('cr, 't, 'b, 'a, 'p, 'w) render_pass" where
  "render_packetfall rn s =
     (case packetfall_render rn (pfall (report s)) (surface s)
             \<lparr> bounds_x = 0, bounds_y = end_of_content s,
               bounds_width = bounds_width (surface_bounds s),
               bounds_height = bandwidth_histogram_height \<rparr> of
        (w, cr, bnds) \<Rightarrow>
          s\<lparr>report := (report s)\<lparr>pfall := w\<rparr>, surface := cr,
            end_of_content :=
              d_add rn (end_of_content s) (d_mul rn (bounds_height bnds) histogram_pad_factor_y)\<rparr>)"

definition render_map ::
  "('cr, 't, 'b, 'a, 'p, 'w) renderer \<Rightarrow> ('cr, 't, 'b, 'a, 'p, 'w) render_pass
     \<Rightarrow> ('cr, 't, 'b, 'a, 'p, 'w) render_pass" where
  "render_map rn s = s"

text \<open>
  The percentage of an entry of \<open>render_dual_histograms_top_n\<close>, written twice there
  (for \<open>left_sum\<close> and for \<open>right_sum\<close>): \<open>percentage\<close> is initialised to 0 and assigned
  \<open>(uint8_t) (((double) pair.second / (double) sum) * 100.0)\<close> when the sum is positive.
\<close>

definition percent_double :: "('cr, 't, 'b, 'a, 'p, 'w) renderer \<Rightarrow> u64 \<Rightarrow> u64 \<Rightarrow> real" where
  "percent_double rn cnt tot =
     d_mul rn (d_div rn (double_of_uint64 rn cnt) (double_of_uint64 rn tot)) 100"

definition top_n_percentage ::
  "('cr, 't, 'b, 'a, 'p, 'w) renderer \<Rightarrow> u64 \<Rightarrow> u64 \<Rightarrow> u8 option" where
  "top_n_percentage rn cnt tot =
     (if 0 < tot then uint8_of_double (percent_double rn cnt tot) else Some 0)"

text \<open>
  The body of the loop of \<open>render_dual_histograms_top_n\<close> for the row \<open>ii\<close>, in two parts.
  First the declaration of \<open>left_extents\<close> and \<open>right_extents\<close> and the two conditional
  blocks (lines 353 to 383): the result is the state and the values of the two
  variables after the blocks. Both calls of \<open>render_text\<close> are given \<open>left_extents\<close> as
  \<open>rendered_extents\<close> (lines 367 and 382); \<open>right_extents\<close> is never assigned. The result
  is \<open>None\<close> when a conversion to \<open>uint8_t\<close> is undefined.
\<close>

definition top_n_row_texts ::
  "('cr, 't, 'b, 'a, 'p, 'w) renderer \<Rightarrow> (string \<times> u64) list \<Rightarrow> (string \<times> u64) list \<Rightarrow> u64 \<Rightarrow> u64
     \<Rightarrow> bounds_t \<Rightarrow> bounds_t \<Rightarrow> nat \<Rightarrow> ('cr, 't, 'b, 'a, 'p, 'w) render_pass
     \<Rightarrow> (('cr, 't, 'b, 'a, 'p, 'w) render_pass \<times> text_extents \<times> text_extents) option" where
  "top_n_row_texts rn left_list right_list left_sum right_sum left_hist_bounds right_hist_bounds ii s0 =
     (case indeterminate_extents rn s0 ii of
        (left_extents0, right_extents) \<Rightarrow>
     (case (if ii < length left_list
            then (case top_n_percentage rn (snd (left_list ! ii)) left_sum of
                    None \<Rightarrow> None
                  | Some percentage \<Rightarrow>
                      Some (render_text rn
                              (fmt_top_entry rn (ii + 1) (fst (left_list ! ii)) (snd (left_list ! ii))
                                 percentage)
                              (top_list_font_size (report s0)) (bounds_x left_hist_bounds) s0))
            else Some (s0, left_extents0)) of
        None \<Rightarrow> None
      | Some (s1, left_extents1) \<Rightarrow>
     (case (if ii < length right_list
            then (case top_n_percentage rn (snd (right_list ! ii)) right_sum of
                    None \<Rightarrow> None
                  | Some percentage \<Rightarrow>
                      Some (render_text rn
                              (fmt_top_entry rn (ii + 1) (fst (right_list ! ii)) (snd (right_list ! ii))
                                 percentage)
                              (top_list_font_size (report s1)) (bounds_x right_hist_bounds) s1))
            else Some (s1, left_extents1)) of
        None \<Rightarrow> None
      | Some (s2, left_extents) \<Rightarrow> Some (s2, left_extents, right_extents))))"

text \<open>Then the last statement of the body (line 385).\<close>

definition top_n_row ::
  "('cr, 't, 'b, 'a, 'p, 'w) renderer \<Rightarrow> (string \<times> u64) list \<Rightarrow> (string \<times> u64) list \<Rightarrow> u64 \<Rightarrow> u64
     \<Rightarrow> bounds_t \<Rightarrow> bounds_t \<Rightarrow> nat \<Rightarrow> ('cr, 't, 'b, 'a, 'p, 'w) render_pass
     \<Rightarrow> ('cr, 't, 'b, 'a, 'p, 'w) render_pass option" where
  "top_n_row rn left_list right_list left_sum right_sum left_hist_bounds right_hist_bounds ii s0 =
     (case top_n_row_texts rn left_list right_list left_sum right_sum left_hist_bounds
             right_hist_bounds ii s0 of
        None \<Rightarrow> None
      | Some (s, left_extents, right_extents) \<Rightarrow>
          Some (s\<lparr>end_of_content :=
                     d_add rn (end_of_content s)
                       (d_mul rn (max (extents_height left_extents) (extents_height right_extents))
                          (3 / 2))\<rparr>))"

text \<open>
  The loop \<open>for(size_t ii = 0; ii < report.histogram_show_top_n_text; ii++)\<close>, from the
  index \<open>ii\<close> on. The bound \<open>n\<close> is the member of the report, which no statement of the
  loop assigns.
\<close>

function top_n_rows ::
  "('cr, 't, 'b, 'a, 'p, 'w) renderer \<Rightarrow> (string \<times> u64) list \<Rightarrow> (string \<times> u64) list \<Rightarrow> u64 \<Rightarrow> u64
     \<Rightarrow> bounds_t \<Rightarrow> bounds_t \<Rightarrow> nat \<Rightarrow> nat \<Rightarrow> ('cr, 't, 'b, 'a, 'p, 'w) render_pass
     \<Rightarrow> ('cr, 't, 'b, 'a, 'p, 'w) render_pass option" where
  "top_n_rows rn left_list right_list left_sum right_sum lb rb n ii s =
     (if ii < n
      then (case top_n_row rn left_list right_list left_sum right_sum lb rb ii s of
              None \<Rightarrow> None
            | Some s' \<Rightarrow> top_n_rows rn left_list right_list left_sum right_sum lb rb n (Suc ii) s')
      else Some s)"
  by pat_completeness auto
termination
  by (relation "measure (\<lambda>(rn, left_list, right_list, left_sum, right_sum, lb, rb, n, ii, s). n - ii)")
     auto

declare top_n_rows.simps [simp del]

definition render_dual_histograms_top_n ::
  "('cr, 't, 'b, 'a, 'p, 'w) renderer \<Rightarrow> (string \<times> u64) list \<Rightarrow> (string \<times> u64) list \<Rightarrow> u64 \<Rightarrow> u64
     \<Rightarrow> bounds_t \<Rightarrow> bounds_t \<Rightarrow> ('cr, 't, 'b, 'a, 'p, 'w) render_pass
     \<Rightarrow> ('cr, 't, 'b, 'a, 'p, 'w) render_pass option" where
  "render_dual_histograms_top_n rn left_list right_list left_sum right_sum left_hist_bounds
       right_hist_bounds s =
     (case top_n_rows rn left_list right_list left_sum right_sum left_hist_bounds right_hist_bounds
             (histogram_show_top_n_text (report s)) 0 s of
        None \<Rightarrow> None
      | Some s' \<Rightarrow>
          Some (s'\<lparr>end_of_content :=
                     d_add rn (end_of_content s')
                       (d_mul rn (max (bounds_height left_hist_bounds) (bounds_height right_hist_bounds))
                          (d_sub rn histogram_pad_factor_y 1))\<rparr>))"

text \<open>
  \<open>render_address_histograms\<close> up to the call of \<open>render_dual_histograms_top_n\<close> (lines 288
  to 307): the state, and the arguments of that call.
\<close>

definition address_histogram_pair ::
  "('cr, 't, 'b, 'a, 'p, 'w) renderer \<Rightarrow> ('cr, 't, 'b, 'a, 'p, 'w) render_pass
     \<Rightarrow> ('cr, 't, 'b, 'a, 'p, 'w) render_pass \<times> (string \<times> u64) list \<times> (string \<times> u64) list \<times>
        u64 \<times> u64 \<times> bounds_t \<times> bounds_t" where
  "address_histogram_pair rn s =
     (let width = d_div rn (bounds_width (surface_bounds s)) address_histogram_width_divisor
      in case address_histogram_render_iptree rn (src_addr_histogram (report s)) (surface s)
                \<lparr> bounds_x = 0, bounds_y = end_of_content s, bounds_width = width,
                  bounds_height = address_histogram_height \<rparr> (src_tree (report s)) of
           (sa, cr1, left_bounds, st) \<Rightarrow>
         (case address_histogram_render_iptree rn (dst_addr_histogram (report s)) cr1
                 \<lparr> bounds_x = d_sub rn (bounds_width (surface_bounds s)) width,
                   bounds_y = end_of_content s, bounds_width = width,
                   bounds_height = address_histogram_height \<rparr> (dst_tree (report s)) of
            (da, cr2, right_bounds, dt) \<Rightarrow>
              (s\<lparr>report := (report s)\<lparr>src_addr_histogram := sa, src_tree := st,
                                       dst_addr_histogram := da, dst_tree := dt\<rparr>,
                 surface := cr2,
                 end_of_content :=
                   d_add rn (end_of_content s)
                     (max (bounds_height left_bounds) (bounds_height right_bounds))\<rparr>,
               address_top_list rn sa, address_top_list rn da,
               address_count_sum rn sa, address_count_sum rn da, left_bounds, right_bounds)))"

definition render_address_histograms ::
  "('cr, 't, 'b, 'a, 'p, 'w) renderer \<Rightarrow> ('cr, 't, 'b, 'a, 'p, 'w) render_pass
     \<Rightarrow> ('cr, 't, 'b, 'a, 'p, 'w) render_pass option" where
  "render_address_histograms rn s =
     (case address_histogram_pair rn s of
        (s1, left_list, right_list, left_sum, right_sum, left_bounds, right_bounds) \<Rightarrow>
          render_dual_histograms_top_n rn left_list right_list left_sum right_sum left_bounds
            right_bounds s1)"

text \<open>\<open>render_port_histograms\<close>, in the same two parts (lines 317 to 335, and the call).\<close>

definition port_histogram_pair ::
  "('cr, 't, 'b, 'a, 'p, 'w) renderer \<Rightarrow> ('cr, 't, 'b, 'a, 'p, 'w) render_pass
     \<Rightarrow> ('cr, 't, 'b, 'a, 'p, 'w) render_pass \<times> (string \<times> u64) list \<times> (string \<times> u64) list \<times>
        u64 \<times> u64 \<times> bounds_t \<times> bounds_t" where
  "port_histogram_pair rn s =
     (let width = d_div rn (bounds_width (surface_bounds s)) address_histogram_width_divisor
      in case port_histogram_render rn (src_port_histogram (report s)) (surface s)
                \<lparr> bounds_x = 0, bounds_y = end_of_content s, bounds_width = width,
                  bounds_height = address_histogram_height \<rparr> of
           (sp, cr1, left_bounds) \<Rightarrow>
         (case port_histogram_render rn (dst_port_histogram (report s)) cr1
                 \<lparr> bounds_x = d_sub rn (bounds_width (surface_bounds s)) width,
                   bounds_y = end_of_content s, bounds_width = width,
                   bounds_height = address_histogram_height \<rparr> of
            (dp, cr2, right_bounds) \<Rightarrow>
              (s\<lparr>report := (report s)\<lparr>src_port_histogram := sp, dst_port_histogram := dp\<rparr>,
                 surface := cr2,
                 end_of_content :=
                   d_add rn (end_of_content s)
                     (max (bounds_height left_bounds) (bounds_height right_bounds))\<rparr>,
               port_top_list rn sp, port_top_list rn dp,
               port_count_sum rn sp, port_count_sum rn dp, left_bounds, right_bounds)))"

definition render_port_histograms ::
  "('cr, 't, 'b, 'a, 'p, 'w) renderer \<Rightarrow> ('cr, 't, 'b, 'a, 'p, 'w) render_pass
     \<Rightarrow> ('cr, 't, 'b, 'a, 'p, 'w) render_pass option" where
  "render_port_histograms rn s =
     (case port_histogram_pair rn s of
        (s1, left_list, right_list, left_sum, right_sum, left_bounds, right_bounds) \<Rightarrow>
          render_dual_histograms_top_n rn left_list right_list left_sum right_sum left_bounds
            right_bounds s1)"

text \<open>
  \<open>one_page_report::render\<close>, in two parts. First the lines 134 to 149: the surface and
  its context are created, the margin is computed, the origin is moved, and the pass
  is constructed.
\<close>

definition render_pass_new ::
  "('cr, 't, 'b, 'a, 'p, 'w) renderer \<Rightarrow> ('t, 'b, 'a, 'p, 'w) one_page_report \<Rightarrow> string
     \<Rightarrow> ('cr, 't, 'b, 'a, 'p, 'w) render_pass" where
  "render_pass_new rn r outdir =
     (let fname = outdir @ ''/'' @ filename r;
          cr = cairo_pdf_surface_create rn fname (bounds_width (bounds r)) (bounds_height (bounds r));
          pad_size = d_mul rn (bounds_width (bounds r)) (page_margin_factor rn);
          pad_bounds = \<lparr> bounds_x = d_add rn (bounds_x (bounds r)) pad_size,
                         bounds_y = d_add rn (bounds_y (bounds r)) pad_size,
                         bounds_width = d_sub rn (bounds_width (bounds r)) (d_mul rn pad_size 2),
                         bounds_height = d_sub rn (bounds_height (bounds r)) (d_mul rn pad_size 2) \<rparr>;
          cr = cairo_translate rn cr (bounds_x pad_bounds) (bounds_y pad_bounds)
      in \<lparr> report = r, surface = cr, surface_bounds = pad_bounds,
           end_of_content = initial_end_of_content rn \<rparr>)"

text \<open>
  Then the six steps, in order. The result is the report after the call and the
  context that was drawn (none without cairo); \<open>None\<close> when a step throws or is
  undefined.
\<close>

definition render ::
  "('cr, 't, 'b, 'a, 'p, 'w) renderer \<Rightarrow> ('t, 'b, 'a, 'p, 'w) one_page_report \<Rightarrow> string
     \<Rightarrow> (('t, 'b, 'a, 'p, 'w) one_page_report \<times> 'cr option) option" where
  "render rn r outdir =
     (if \<not> cairo_pdf_available rn then Some (r, None)
      else
       (case render_header rn (render_pass_new rn r outdir) of
          None \<Rightarrow> None
        | Some s1 \<Rightarrow>
           (case render_address_histograms rn
                   (render_packetfall rn (render_map rn (render_bandwidth_histogram rn s1))) of
              None \<Rightarrow> None
            | Some s2 \<Rightarrow>
               (case render_port_histograms rn s2 of
                  None \<Rightarrow> None
                | Some s3 \<Rightarrow> Some (report s3, Some (surface s3))))))"

text \<open>
  What \<open>ingest_packet\<close> tallied in a report \<open>r\<close> is still what the report \<open>r'\<close> holds: the
  source identifier, the two counters, the time range, and the count of every transport
  tag (a tag without an entry counts 0; an entry of \<open>r\<close> is an entry of \<open>r'\<close>).
\<close>

definition tallies_kept ::
  "('t, 'b, 'a, 'p, 'w) one_page_report \<Rightarrow> ('t, 'b, 'a, 'p, 'w) one_page_report \<Rightarrow> bool" where
  "tallies_kept r r' \<longleftrightarrow>
     source_identifier r' = source_identifier r \<and> packet_count r' = packet_count r \<and>
     byte_count r' = byte_count r \<and> earliest r' = earliest r \<and> latest r' = latest r \<and>
     (\<forall>k. map_count (transport_counts r') k = map_count (transport_counts r) k) \<and>
     (\<forall>k v. transport_counts r k = Some v \<longrightarrow> transport_counts r' k = Some v)"

subsection \<open>Recording collaborators\<close>

text \<open>
  An instance of the parameters on which the model runs: every collaborator is the list
  of the calls it received, and the decoders read a toy wire format (a version byte,
  the source address, the destination address, the payload; a TCP segment is a payload
  that starts with the protocol number 6).
\<close>

definition toy_ip4_from_bytes :: "u8 list \<Rightarrow> ip4_dgram option" where
  "toy_ip4_from_bytes bs =
     (if 9 \<le> length bs \<and> hd bs = 0x45
      then Some \<lparr> ip_src = take 4 (tl bs), ip_dst = take 4 (drop 5 bs), ip4_payload = drop 9 bs \<rparr>
      else None)"

definition toy_ip6_from_bytes :: "u8 list \<Rightarrow> ip6_dgram option" where
  "toy_ip6_from_bytes bs =
     (if 33 \<le> length bs \<and> hd bs = 0x60
      then Some \<lparr> ip6_src = take 16 (tl bs), ip6_dst = take 16 (drop 17 bs), ip6_payload = drop 33 bs \<rparr>
      else None)"

definition toy_tcp_from_bytes :: "u8 list \<Rightarrow> tcp_seg option" where
  "toy_tcp_from_bytes bs =
     (case bs of [] \<Rightarrow> None
      | b # rest \<Rightarrow> if b = 6 then Some \<lparr> tcp_header = [b], tcp_payload = rest \<rparr> else None)"

definition recording ::
  "((u8 list \<times> nat) list, (packet_info \<times> tcp_seg option) list, tcp_seg list, packet_info list)
     collaborators" where
  "recording =
     \<lparr> ip4_from_bytes = toy_ip4_from_bytes,
       ip6_from_bytes = toy_ip6_from_bytes,
       tcp_from_bytes = toy_tcp_from_bytes,
       iptree_add = (\<lambda>t addr len. t @ [(addr, len)]),
       time_histogram_ingest = (\<lambda>h pkt tcp. h @ [(pkt, tcp)]),
       port_histogram_ingest = (\<lambda>h tcp. h @ [tcp]),
       packetfall_ingest = (\<lambda>w pkt. w @ [pkt]) \<rparr>"

text \<open>
  A new report. Its source address histogram reports a height of 80 units once drawn,
  its destination address histogram a height of 65 units.
\<close>

definition fresh_report ::
  "((u8 list \<times> nat) list, (packet_info \<times> tcp_seg option) list, real, tcp_seg list,
    packet_info list) one_page_report" where
  "fresh_report = one_page_report_new [] 80 65 [] [] [] [] []"

text \<open>A packet that is not IP (an ARP frame of 60 bytes), stamped \<open>s\<close> seconds and \<open>us\<close> microseconds.\<close>

definition arp_packet :: "int \<Rightarrow> int \<Rightarrow> packet_info" where
  "arp_packet s us =
     \<lparr> ts = \<lparr> tv_sec = s, tv_usec = us \<rparr>, caplen = 60, ether_type = 0x0806, ip_data = [] \<rparr>"

text \<open>An IPv4 packet from 10.0.0.1 to 10.0.0.2 that carries a TCP segment.\<close>

definition ip4_tcp_packet :: packet_info where
  "ip4_tcp_packet =
     \<lparr> ts = \<lparr> tv_sec = 100, tv_usec = 7 \<rparr>, caplen = 74, ether_type = 0x0800,
       ip_data = [0x45, 10, 0, 0, 1, 10, 0, 0, 2, 6, 1, 2, 3] \<rparr>"

text \<open>An IPv6 packet from ::1 to ::2 whose payload is not TCP.\<close>

definition ip6_packet :: packet_info where
  "ip6_packet =
     \<lparr> ts = \<lparr> tv_sec = 101, tv_usec = 9 \<rparr>, caplen = 90, ether_type = 0x86dd,
       ip_data = 0x60 # (replicate 15 0 @ [1]) @ (replicate 15 0 @ [2]) @ [17, 0] \<rparr>"

subsection \<open>A recording renderer\<close>

text \<open>
  The calls on the cairo context, recorded in order. \<open>Plot\<close> stands for what a
  collaborator draws into the bounds it is given.
\<close>

datatype cairo_call =
  Create string real real
  | Translate real real
  | SetFontSize real
  | SetSourceRgb real real real
  | MoveTo real real
  | ShowText string
  | Plot string bounds_t

text \<open>
  An instance of the rendering parameters, with exact arithmetic. A text is 10 units
  high when one of its letters has a descender and 8 units high otherwise. An address
  histogram is the height that it reports once drawn; the other collaborators draw
  into their bounds and leave them as they are. No histogram has entries to list.
  Variables without an initialiser hold zeros.
\<close>

definition toy_text_extents :: "string \<Rightarrow> text_extents" where
  "toy_text_extents text =
     \<lparr> x_bearing = 0, y_bearing = 0, extents_width = 5 * real (length text),
       extents_height = (if set text \<inter> set ''gjpqy'' = {} then 8 else 10),
       x_advance = 5 * real (length text), y_advance = 0 \<rparr>"

definition zero_extents :: text_extents where
  "zero_extents =
     \<lparr> x_bearing = 0, y_bearing = 0, extents_width = 0, extents_height = 0,
       x_advance = 0, y_advance = 0 \<rparr>"

definition stub_renderer ::
  "(cairo_call list, (u8 list \<times> nat) list, (packet_info \<times> tcp_seg option) list,
    real, tcp_seg list, packet_info list) renderer" where
  "stub_renderer =
     \<lparr> cairo_pdf_available = True,
       round_double = (\<lambda>v. v),
       cairo_pdf_surface_create = (\<lambda>fname w h. [Create fname w h]),
       cairo_translate = (\<lambda>cr tx ty. cr @ [Translate tx ty]),
       cairo_set_font_size = (\<lambda>cr size. cr @ [SetFontSize size]),
       cairo_set_source_rgb = (\<lambda>cr r g b. cr @ [SetSourceRgb r g b]),
       cairo_text_extents = (\<lambda>cr text. toy_text_extents text),
       cairo_move_to = (\<lambda>cr mx my. cr @ [MoveTo mx my]),
       cairo_show_text = (\<lambda>cr text. cr @ [ShowText text]),
       time_histogram_render = (\<lambda>h cr b. (h, cr @ [Plot ''bandwidth'' b], b)),
       packetfall_render = (\<lambda>w cr b. (w, cr @ [Plot ''packetfall'' b], b)),
       address_histogram_render_iptree =
         (\<lambda>h cr b t. (h, cr @ [Plot ''addresses'' b], b\<lparr>bounds_height := h\<rparr>, t)),
       port_histogram_render = (\<lambda>h cr b. (h, cr @ [Plot ''ports'' b], b)),
       address_count_sum = (\<lambda>h. 0),
       address_top_list = (\<lambda>h. []),
       port_count_sum = (\<lambda>h. of_nat (length h)),
       port_top_list = (\<lambda>h. []),
       title_version = ''tcpflow'',
       fmt_input = (\<lambda>src. ''Input: '' @ src),
       fmt_generated = ''Generated: now'',
       fmt_date_range = (\<lambda>start stop. ''Date range''),
       size_log_1000 = (\<lambda>n. if n = 0 then 0x8000000000000000 else if n < 1000 then 0 else 1),
       fmt_packets = (\<lambda>packets bytes size_log suffix. ''Packets analyzed: '' @ suffix),
       fmt_transports = (\<lambda>ip ip6 arp tot. ''Transports''),
       fmt_top_entry = (\<lambda>rank label cnt percentage. label),
       indeterminate_extents = (\<lambda>s ii. (zero_extents, zero_extents)),
       initial_end_of_content = 0 \<rparr>"

text \<open>The same renderer on a machine whose doubles are binary64.\<close>

definition binary64_renderer ::
  "(cairo_call list, (u8 list \<times> nat) list, (packet_info \<times> tcp_seg option) list,
    real, tcp_seg list, packet_info list) renderer" where
  "binary64_renderer = stub_renderer \<lparr> round_double := binary64_round \<rparr>"

text \<open>A pass at the top of a page of 500 by 700 units, over the report \<open>r\<close>.\<close>

definition stub_pass ::
  "((u8 list \<times> nat) list, (packet_info \<times> tcp_seg option) list, real, tcp_seg list,
    packet_info list) one_page_report
   \<Rightarrow> (cairo_call list, (u8 list \<times> nat) list, (packet_info \<times> tcp_seg option) list,
       real, tcp_seg list, packet_info list) render_pass" where
  "stub_pass r =
     \<lparr> report = r, surface = [],
       surface_bounds = \<lparr> bounds_x = 0, bounds_y = 0, bounds_width = 500, bounds_height = 700 \<rparr>,
       end_of_content = 0 \<rparr>"

section \<open>Ingestion: properties\<close>


lemma update_time_range_eq:
  "update_time_range r pkt =
     r\<lparr>earliest := (if tv_sec (earliest r) = 0 then ts pkt else earliest r),
       latest := (if tv_sec (latest r) < tv_sec (ts pkt) \<and> tv_usec (latest r) < tv_usec (ts pkt)
                  then ts pkt else latest r)\<rparr>"
  by (simp add: update_time_range_def Let_def)

lemma update_counters_eq:
  "update_counters r pkt =
     r\<lparr>packet_count := packet_count r + 1,
       byte_count := byte_count r + ucast (caplen pkt),
       transport_counts := map_increment (transport_counts r) (ether_type pkt)\<rparr>"
  by (simp add: update_counters_def)

lemma pass_to_children_eq:
  "pass_to_children cb (ip4, ip6, otcp) r pkt =
     r\<lparr>src_tree := (case ip6 of Some d6 \<Rightarrow> iptree_add cb (src_tree r) (ip6_src d6) 16
                    | None \<Rightarrow> (case ip4 of Some d4 \<Rightarrow> iptree_add cb (src_tree r) (ip_src d4) 4
                               | None \<Rightarrow> src_tree r)),
       dst_tree := (case ip6 of Some d6 \<Rightarrow> iptree_add cb (dst_tree r) (ip6_dst d6) 16
                    | None \<Rightarrow> (case ip4 of Some d4 \<Rightarrow> iptree_add cb (dst_tree r) (ip_dst d4) 4
                               | None \<Rightarrow> dst_tree r)),
       bandwidth_histogram := time_histogram_ingest cb (bandwidth_histogram r) pkt otcp,
       src_port_histogram := (case otcp of Some tcp \<Rightarrow> port_histogram_ingest cb (src_port_histogram r) tcp
                              | None \<Rightarrow> src_port_histogram r),
       dst_port_histogram := (case otcp of Some tcp \<Rightarrow> port_histogram_ingest cb (dst_port_histogram r) tcp
                              | None \<Rightarrow> dst_port_histogram r),
       pfall := packetfall_ingest cb (pfall r) pkt\<rparr>"
  by (cases ip6; cases ip4; cases otcp) (simp_all add: pass_to_children_def)

lemma ingest_packet_eq:
  "ingest_packet cb r pkt =
     pass_to_children cb (extract_headers cb pkt)
       (r\<lparr>earliest := (if tv_sec (earliest r) = 0 then ts pkt else earliest r),
          latest := (if tv_sec (latest r) < tv_sec (ts pkt) \<and> tv_usec (latest r) < tv_usec (ts pkt)
                  then ts pkt else latest r),
          packet_count := packet_count r + 1,
          byte_count := byte_count r + ucast (caplen pkt),
       transport_counts := map_increment (transport_counts r) (ether_type pkt)\<rparr>) pkt"
  by (simp add: ingest_packet_def update_time_range_eq update_counters_eq)

lemma earliest_ingest_packet:
  "earliest (ingest_packet cb r pkt) = (if tv_sec (earliest r) = 0 then ts pkt else earliest r)"
  by (cases "extract_headers cb pkt") (simp add: ingest_packet_eq pass_to_children_eq)

lemma latest_ingest_packet:
  "latest (ingest_packet cb r pkt) =
     (if tv_sec (latest r) < tv_sec (ts pkt) \<and> tv_usec (latest r) < tv_usec (ts pkt)
      then ts pkt else latest r)"
  by (cases "extract_headers cb pkt") (simp add: ingest_packet_eq pass_to_children_eq)

lemma packet_count_ingest_packet:
  "packet_count (ingest_packet cb r pkt) = packet_count r + 1"
  by (cases "extract_headers cb pkt") (simp add: ingest_packet_eq pass_to_children_eq)

lemma byte_count_ingest_packet:
  "byte_count (ingest_packet cb r pkt) = byte_count r + ucast (caplen pkt)"
  by (cases "extract_headers cb pkt") (simp add: ingest_packet_eq pass_to_children_eq)

lemma transport_counts_ingest_packet:
  "transport_counts (ingest_packet cb r pkt) = map_increment (transport_counts r) (ether_type pkt)"
  by (cases "extract_headers cb pkt") (simp add: ingest_packet_eq pass_to_children_eq)

lemma ingest_all_Nil: "ingest_all cb r [] = r"
  by (simp add: ingest_all_def)

lemma ingest_all_Cons: "ingest_all cb r (p # ps) = ingest_all cb (ingest_packet cb r p) ps"
  by (simp add: ingest_all_def)

lemma ingest_all_snoc: "ingest_all cb r (ps @ [p]) = ingest_packet cb (ingest_all cb r ps) p"
  by (simp add: ingest_all_def)

lemma earliest_fixed:
  "tv_sec (earliest r) \<noteq> 0 \<Longrightarrow> earliest (ingest_all cb r ps) = earliest r"
  by (induction ps arbitrary: r) (simp_all add: ingest_all_Nil ingest_all_Cons earliest_ingest_packet)

lemma packet_count_ingest_all:
  "packet_count (ingest_all cb r ps) = packet_count r + of_nat (length ps)"
  by (induction ps arbitrary: r) (simp_all add: ingest_all_Nil ingest_all_Cons packet_count_ingest_packet)

lemma ucast_caplen: "(ucast (c :: u32) :: u64) = of_nat (unat c)"
  by simp

lemma byte_count_ingest_all:
  "byte_count (ingest_all cb r ps) = byte_count r + of_nat (\<Sum>p\<leftarrow>ps. unat (caplen p))"
  by (induction ps arbitrary: r)
     (simp_all add: ingest_all_Nil ingest_all_Cons byte_count_ingest_packet)

lemma dom_map_increment: "dom (map_increment m k) = insert k (dom m)"
  by (auto simp: map_increment_def map_subscript_def Let_def split: option.splits)

lemma map_count_map_increment:
  "map_count (map_increment m k) j = (if j = k then map_count m k + 1 else map_count m j)"
  by (auto simp: map_increment_def map_subscript_def map_count_def Let_def split: option.splits)

lemma transport_total_map_increment:
  assumes "finite (dom m)"
  shows "transport_total (map_increment m k) = transport_total m + 1"
proof (cases "k \<in> dom m")
  case True
  have "transport_total (map_increment m k) = (\<Sum>j \<in> dom m. map_count (map_increment m k) j)"
    using True by (simp add: transport_total_def dom_map_increment insert_absorb)
  also have "\<dots> = map_count (map_increment m k) k + (\<Sum>j \<in> dom m - {k}. map_count (map_increment m k) j)"
    using assms True by (simp add: sum.remove)
  also have "(\<Sum>j \<in> dom m - {k}. map_count (map_increment m k) j) = (\<Sum>j \<in> dom m - {k}. map_count m j)"
    by (rule sum.cong) (simp_all add: map_count_map_increment)
  also have "map_count (map_increment m k) k = map_count m k + 1"
    by (simp add: map_count_map_increment)
  finally have "transport_total (map_increment m k) =
      (map_count m k + (\<Sum>j \<in> dom m - {k}. map_count m j)) + 1"
    by simp
  then show ?thesis
    using assms True by (simp add: transport_total_def sum.remove [symmetric])
next
  case False
  then have z: "map_count m k = 0"
    by (simp add: map_count_def domIff)
  have "transport_total (map_increment m k) =
      map_count (map_increment m k) k + (\<Sum>j \<in> dom m. map_count (map_increment m k) j)"
    using assms False by (simp add: transport_total_def dom_map_increment)
  also have "(\<Sum>j \<in> dom m. map_count (map_increment m k) j) = (\<Sum>j \<in> dom m. map_count m j)"
    using False by (intro sum.cong) (auto simp: map_count_map_increment)
  finally show ?thesis
    using z by (simp add: transport_total_def map_count_map_increment)
qed

lemma unat_map_count_le_sum:
  assumes "finite (dom m)"
  shows "unat (map_count m k) \<le> (\<Sum>j \<in> dom m. unat (map_count m j))"
proof (cases "k \<in> dom m")
  case True
  with assms show ?thesis
    by (intro member_le_sum) simp_all
next
  case False
  then show ?thesis
    by (simp add: map_count_def domIff)
qed

lemma nat_total_map_increment:
  assumes fin: "finite (dom m)"
    and room: "(\<Sum>j \<in> dom m. unat (map_count m j)) < 2 ^ 64 - 1"
  shows "(\<Sum>j \<in> dom (map_increment m k). unat (map_count (map_increment m k) j)) =
         (\<Sum>j \<in> dom m. unat (map_count m j)) + 1"
proof -
  have "unat (map_count m k) < 2 ^ 64 - 1"
    using unat_map_count_le_sum [OF fin, of k] room by linarith
  then have "unat (map_count m k) + unat (1 :: u64) < 2 ^ LENGTH(64)"
    by simp
  then have step: "unat (map_count m k + 1) = unat (map_count m k) + 1"
    by (simp only: unat_add_lem [THEN iffD1] unat_1)
  show ?thesis
  proof (cases "k \<in> dom m")
    case True
    have "(\<Sum>j \<in> dom (map_increment m k). unat (map_count (map_increment m k) j)) =
        unat (map_count (map_increment m k) k) +
        (\<Sum>j \<in> dom m - {k}. unat (map_count (map_increment m k) j))"
      using fin True by (simp add: dom_map_increment insert_absorb sum.remove)
    also have "(\<Sum>j \<in> dom m - {k}. unat (map_count (map_increment m k) j)) =
        (\<Sum>j \<in> dom m - {k}. unat (map_count m j))"
      by (rule sum.cong) (simp_all add: map_count_map_increment)
    finally show ?thesis
      using fin True step by (simp add: map_count_map_increment sum.remove [of _ k])
  next
    case False
    then have z: "map_count m k = 0"
      by (simp add: map_count_def domIff)
    have "(\<Sum>j \<in> dom (map_increment m k). unat (map_count (map_increment m k) j)) =
        unat (map_count (map_increment m k) k) +
        (\<Sum>j \<in> dom m. unat (map_count (map_increment m k) j))"
      using fin False by (simp add: dom_map_increment)
    also have "(\<Sum>j \<in> dom m. unat (map_count (map_increment m k) j)) =
        (\<Sum>j \<in> dom m. unat (map_count m j))"
      using False by (intro sum.cong) (auto simp: map_count_map_increment)
    finally show ?thesis
      using z by (simp add: map_count_map_increment)
  qed
qed

lemma finite_dom_ingest_all:
  "finite (dom (transport_counts r)) \<Longrightarrow> finite (dom (transport_counts (ingest_all cb r ps)))"
  by (induction ps arbitrary: r)
     (simp_all add: ingest_all_Nil ingest_all_Cons transport_counts_ingest_packet dom_map_increment)

lemma transport_total_ingest_all:
  "finite (dom (transport_counts r)) \<Longrightarrow>
   transport_total (transport_counts (ingest_all cb r ps)) =
     transport_total (transport_counts r) + of_nat (length ps)"
  by (induction ps arbitrary: r)
     (simp_all add: ingest_all_Nil ingest_all_Cons transport_counts_ingest_packet dom_map_increment
        transport_total_map_increment)

lemma nat_total_ingest_all:
  "finite (dom (transport_counts r)) \<Longrightarrow>
   (\<Sum>j \<in> dom (transport_counts r). unat (map_count (transport_counts r) j)) + length ps < 2 ^ 64 \<Longrightarrow>
   (\<Sum>j \<in> dom (transport_counts (ingest_all cb r ps)).
       unat (map_count (transport_counts (ingest_all cb r ps)) j)) =
   (\<Sum>j \<in> dom (transport_counts r). unat (map_count (transport_counts r) j)) + length ps"
proof (induction ps arbitrary: r)
  case Nil
  then show ?case by (simp add: ingest_all_Nil)
next
  case (Cons p ps)
  let ?nxt = "ingest_packet cb r p"
  have fin1: "finite (dom (transport_counts ?nxt))"
    using Cons.prems(1) by (simp add: transport_counts_ingest_packet dom_map_increment)
  have one: "(\<Sum>j \<in> dom (transport_counts ?nxt). unat (map_count (transport_counts ?nxt) j)) =
      (\<Sum>j \<in> dom (transport_counts r). unat (map_count (transport_counts r) j)) + 1"
    unfolding transport_counts_ingest_packet
    using Cons.prems by (intro nat_total_map_increment) simp_all
  have "(\<Sum>j \<in> dom (transport_counts (ingest_all cb ?nxt ps)).
          unat (map_count (transport_counts (ingest_all cb ?nxt ps)) j)) =
        (\<Sum>j \<in> dom (transport_counts ?nxt). unat (map_count (transport_counts ?nxt) j)) + length ps"
    using Cons.prems(2) one by (intro Cons.IH [OF fin1]) simp
  then show ?case
    using one by (simp add: ingest_all_Cons)
qed

text \<open>
  Claim C2. Starting from a freshly constructed report, after any sequence of ingestion
  calls \<open>packet_count\<close> is the number of calls, \<open>byte_count\<close> is the sum of the captured
  lengths and the counts of \<open>transport_counts\<close> add up to \<open>packet_count\<close>. The counters are
  \<open>uint64_t\<close>: the equalities hold in 64-bit arithmetic for every sequence, and between
  the natural numbers as long as the number of calls (for \<open>byte_count\<close>: the sum of bytes)
  stays below \<open>2 ^ 64\<close>. One ingestion call adds one to the count of the packet's tag and
  leaves the count of every other tag.
\<close>

theorem ingest_counters:
  "packet_count (ingest_all cb (one_page_report_new bw sa da sp dp pf st dt) ps) = of_nat (length ps) \<and>
   byte_count (ingest_all cb (one_page_report_new bw sa da sp dp pf st dt) ps) =
     of_nat (\<Sum>p\<leftarrow>ps. unat (caplen p)) \<and>
   transport_total (transport_counts (ingest_all cb (one_page_report_new bw sa da sp dp pf st dt) ps)) =
     packet_count (ingest_all cb (one_page_report_new bw sa da sp dp pf st dt) ps) \<and>
   (length ps < 2 ^ 64 \<longrightarrow>
      unat (packet_count (ingest_all cb (one_page_report_new bw sa da sp dp pf st dt) ps)) = length ps \<and>
      (\<Sum>j \<in> dom (transport_counts (ingest_all cb (one_page_report_new bw sa da sp dp pf st dt) ps)).
          unat (map_count (transport_counts
            (ingest_all cb (one_page_report_new bw sa da sp dp pf st dt) ps)) j)) = length ps) \<and>
   ((\<Sum>p\<leftarrow>ps. unat (caplen p)) < 2 ^ 64 \<longrightarrow>
      unat (byte_count (ingest_all cb (one_page_report_new bw sa da sp dp pf st dt) ps)) =
        (\<Sum>p\<leftarrow>ps. unat (caplen p))) \<and>
   map_count (transport_counts (ingest_packet cb r pkt)) k =
     (if k = ether_type pkt then map_count (transport_counts r) k + 1
      else map_count (transport_counts r) k)"
proof -
  let ?new = "one_page_report_new bw sa da sp dp pf st dt"
  let ?r = "ingest_all cb ?new ps"
  have init: "packet_count ?new = 0" "byte_count ?new = 0" "transport_counts ?new = Map.empty"
    by (simp_all add: one_page_report_new_def)
  have pc: "packet_count ?r = of_nat (length ps)"
    by (simp add: packet_count_ingest_all init)
  have bc: "byte_count ?r = of_nat (\<Sum>p\<leftarrow>ps. unat (caplen p))"
    by (simp add: byte_count_ingest_all init)
  have tt: "transport_total (transport_counts ?r) = packet_count ?r"
  proof -
    have "transport_total (transport_counts ?new) = 0"
      by (simp add: init transport_total_def)
    then show ?thesis
      by (simp add: transport_total_ingest_all pc init)
  qed
  have pcn: "unat (packet_count ?r) = length ps" if "length ps < 2 ^ 64"
    using that by (simp add: pc unat_of_nat)
  have ttn: "(\<Sum>j \<in> dom (transport_counts ?r). unat (map_count (transport_counts ?r) j)) = length ps"
    if "length ps < 2 ^ 64"
    using that nat_total_ingest_all [of ?new ps cb] by (simp add: init)
  have bcn: "unat (byte_count ?r) = (\<Sum>p\<leftarrow>ps. unat (caplen p))"
    if "(\<Sum>p\<leftarrow>ps. unat (caplen p)) < 2 ^ 64"
    using that by (simp add: bc unat_of_nat)
  have one: "map_count (transport_counts (ingest_packet cb r pkt)) k =
     (if k = ether_type pkt then map_count (transport_counts r) k + 1
      else map_count (transport_counts r) k)"
    by (simp add: transport_counts_ingest_packet map_count_map_increment)
  from pc bc tt pcn ttn bcn one show ?thesis
    by blast
qed

lemmas run_ingest =
  ingest_all_Nil ingest_all_Cons ingest_packet_def update_time_range_def update_counters_def
  extract_headers_def pass_to_children_def recording_def fresh_report_def one_page_report_new_def
  toy_ip4_from_bytes_def toy_ip6_from_bytes_def toy_tcp_from_bytes_def
  arp_packet_def ip4_tcp_packet_def ip6_packet_def
  map_increment_def map_subscript_def map_count_def Let_def

text \<open>
  Claim C1. An ingestion call replaces \<open>latest\<close> by the packet's timestamp exactly when
  the packet's \<open>tv_sec\<close> is strictly greater than the stored one and its \<open>tv_usec\<close> is
  strictly greater than the stored one; otherwise \<open>latest\<close> stays. In particular, when the
  seconds increase and the microseconds do not, \<open>latest\<close> is unchanged.
\<close>

theorem latest_update_policy:
  "latest (ingest_packet cb r pkt) =
     (if tv_sec (latest r) < tv_sec (ts pkt) \<and> tv_usec (latest r) < tv_usec (ts pkt)
      then ts pkt else latest r) \<and>
   (tv_sec (latest r) < tv_sec (ts pkt) \<and> \<not> tv_usec (latest r) < tv_usec (ts pkt) \<longrightarrow>
      latest (ingest_packet cb r pkt) = latest r)"
  by (simp add: latest_ingest_packet)

theorem latest_update_policy_witness:
  "tv_sec (latest (ingest_all recording fresh_report [arp_packet 100 500])) < tv_sec (ts (arp_packet 101 20)) \<and>
   \<not> tv_usec (latest (ingest_all recording fresh_report [arp_packet 100 500])) < tv_usec (ts (arp_packet 101 20)) \<and>
   latest (ingest_packet recording (ingest_all recording fresh_report [arp_packet 100 500]) (arp_packet 101 20)) =
     latest (ingest_all recording fresh_report [arp_packet 100 500])"
proof -
  have h1: "tv_sec (latest (ingest_all recording fresh_report [arp_packet 100 500]))
      < tv_sec (ts (arp_packet 101 20))"
    by (simp add: run_ingest)
  have h2: "\<not> tv_usec (latest (ingest_all recording fresh_report [arp_packet 100 500]))
      < tv_usec (ts (arp_packet 101 20))"
    by (simp add: run_ingest)
  from latest_update_policy [of recording "ingest_all recording fresh_report [arp_packet 100 500]"
        "arp_packet 101 20"] h1 h2
  show ?thesis
    by blast
qed

text \<open>
  Claim C4 says that \<open>earliest\<close> is the timestamp of the first ingested packet whatever
  comes later. The test \<open>earliest.tv_sec == 0\<close> stands for ``not set yet'': a first packet
  stamped within second 0 leaves it true, and the second packet overwrites \<open>earliest\<close>.
\<close>

theorem earliest_counterexample:
  "earliest (ingest_all recording fresh_report [arp_packet 0 5, arp_packet 7 0]) \<noteq> ts (arp_packet 0 5)"
  by (simp add: run_ingest)

text \<open>
  Claim C4, amended. When the first ingested packet has a non-zero \<open>tv_sec\<close>, \<open>earliest\<close>
  is that packet's timestamp after the whole sequence, whatever the later timestamps;
  and once \<open>earliest\<close> has a non-zero \<open>tv_sec\<close>, no ingestion call changes it.
\<close>

theorem earliest_is_first_timestamp:
  "(tv_sec (ts p) \<noteq> 0 \<longrightarrow>
      earliest (ingest_all cb (one_page_report_new bw sa da sp dp pf st dt) (p # ps)) = ts p) \<and>
   (tv_sec (earliest r) \<noteq> 0 \<longrightarrow> earliest (ingest_packet cb r q) = earliest r)"
proof -
  have "earliest (ingest_all cb (one_page_report_new bw sa da sp dp pf st dt) (p # ps)) = ts p"
    if "tv_sec (ts p) \<noteq> 0"
  proof -
    have "earliest (ingest_packet cb (one_page_report_new bw sa da sp dp pf st dt) p) = ts p"
      by (simp add: earliest_ingest_packet one_page_report_new_def)
    with that show ?thesis
      by (simp add: ingest_all_Cons earliest_fixed)
  qed
  then show ?thesis
    by (simp add: earliest_ingest_packet)
qed

theorem earliest_is_first_timestamp_witness:
  "tv_sec (ts (arp_packet 9 5)) \<noteq> 0 \<and>
   earliest (ingest_all recording fresh_report [arp_packet 9 5, arp_packet 7 0, arp_packet 0 1]) =
     ts (arp_packet 9 5) \<and>
   tv_sec (earliest (ingest_all recording fresh_report [arp_packet 9 5])) \<noteq> 0 \<and>
   earliest (ingest_packet recording (ingest_all recording fresh_report [arp_packet 9 5]) (arp_packet 7 0)) =
     earliest (ingest_all recording fresh_report [arp_packet 9 5])"
proof -
  have h1: "tv_sec (ts (arp_packet 9 5)) \<noteq> 0"
    by (simp add: arp_packet_def)
  have h2: "tv_sec (earliest (ingest_all recording fresh_report [arp_packet 9 5])) \<noteq> 0"
    by (simp add: run_ingest)
  note t = earliest_is_first_timestamp [of "arp_packet 9 5" recording "[]" "80::real" "65::real" "[]" "[]" "[]" "[]" "[]"
        "[arp_packet 7 0, arp_packet 0 1]" "ingest_all recording fresh_report [arp_packet 9 5]"
        "arp_packet 7 0", folded fresh_report_def]
  from t h1 h2 show ?thesis
    by blast
qed

lemma children_kept:
  "src_tree (update_time_range r pkt) = src_tree r"
  "dst_tree (update_time_range r pkt) = dst_tree r"
  "bandwidth_histogram (update_time_range r pkt) = bandwidth_histogram r"
  "src_port_histogram (update_time_range r pkt) = src_port_histogram r"
  "dst_port_histogram (update_time_range r pkt) = dst_port_histogram r"
  "pfall (update_time_range r pkt) = pfall r"
  "src_tree (update_counters r pkt) = src_tree r"
  "dst_tree (update_counters r pkt) = dst_tree r"
  "bandwidth_histogram (update_counters r pkt) = bandwidth_histogram r"
  "src_port_histogram (update_counters r pkt) = src_port_histogram r"
  "dst_port_histogram (update_counters r pkt) = dst_port_histogram r"
  "pfall (update_counters r pkt) = pfall r"
  by (simp_all add: update_time_range_eq update_counters_eq)

lemma children_pass_to_children:
  "src_tree (pass_to_children cb (ip4, ip6, otcp) r pkt) =
     (case ip6 of Some d6 \<Rightarrow> iptree_add cb (src_tree r) (ip6_src d6) 16
      | None \<Rightarrow> (case ip4 of Some d4 \<Rightarrow> iptree_add cb (src_tree r) (ip_src d4) 4 | None \<Rightarrow> src_tree r))"
  "dst_tree (pass_to_children cb (ip4, ip6, otcp) r pkt) =
     (case ip6 of Some d6 \<Rightarrow> iptree_add cb (dst_tree r) (ip6_dst d6) 16
      | None \<Rightarrow> (case ip4 of Some d4 \<Rightarrow> iptree_add cb (dst_tree r) (ip_dst d4) 4 | None \<Rightarrow> dst_tree r))"
  "bandwidth_histogram (pass_to_children cb (ip4, ip6, otcp) r pkt) =
     time_histogram_ingest cb (bandwidth_histogram r) pkt otcp"
  "src_port_histogram (pass_to_children cb (ip4, ip6, otcp) r pkt) =
     (case otcp of Some tcp \<Rightarrow> port_histogram_ingest cb (src_port_histogram r) tcp
      | None \<Rightarrow> src_port_histogram r)"
  "dst_port_histogram (pass_to_children cb (ip4, ip6, otcp) r pkt) =
     (case otcp of Some tcp \<Rightarrow> port_histogram_ingest cb (dst_port_histogram r) tcp
      | None \<Rightarrow> dst_port_histogram r)"
  "pfall (pass_to_children cb (ip4, ip6, otcp) r pkt) = packetfall_ingest cb (pfall r) pkt"
  by (simp_all add: pass_to_children_eq)

text \<open>
  Claim C3. With the three results of the header extraction of a packet: when IPv6 was
  decoded, the 16-byte source and destination addresses are added to the source and
  destination trees; else when IPv4 was decoded, the 4-byte addresses are; when neither
  was, both trees are left as they were. The bandwidth histogram and the packet
  waterfall receive every packet. The two port histograms receive the TCP segment when
  one was decoded, and are left as they were when none was.
\<close>

theorem dispatch_policy:
  assumes "extract_headers cb pkt = (ip4, ip6, optional_tcp)"
  shows "ip4 = ip4_from_bytes cb (ip_data pkt) \<and>
    ip6 = (case ip4 of Some d4 \<Rightarrow> None | None \<Rightarrow> ip6_from_bytes cb (ip_data pkt)) \<and>
    optional_tcp =
      tcp_from_bytes cb
        (case ip4 of Some d4 \<Rightarrow> ip4_payload d4
         | None \<Rightarrow> (case ip6 of Some d6 \<Rightarrow> ip6_payload d6 | None \<Rightarrow> [])) \<and>
    (case ip6 of
       Some d6 \<Rightarrow>
         src_tree (ingest_packet cb r pkt) = iptree_add cb (src_tree r) (ip6_src d6) 16 \<and>
         dst_tree (ingest_packet cb r pkt) = iptree_add cb (dst_tree r) (ip6_dst d6) 16
     | None \<Rightarrow>
        (case ip4 of
           Some d4 \<Rightarrow>
             src_tree (ingest_packet cb r pkt) = iptree_add cb (src_tree r) (ip_src d4) 4 \<and>
             dst_tree (ingest_packet cb r pkt) = iptree_add cb (dst_tree r) (ip_dst d4) 4
         | None \<Rightarrow>
             src_tree (ingest_packet cb r pkt) = src_tree r \<and>
             dst_tree (ingest_packet cb r pkt) = dst_tree r)) \<and>
    bandwidth_histogram (ingest_packet cb r pkt) =
      time_histogram_ingest cb (bandwidth_histogram r) pkt optional_tcp \<and>
    pfall (ingest_packet cb r pkt) = packetfall_ingest cb (pfall r) pkt \<and>
    (case optional_tcp of
       Some tcp \<Rightarrow>
         src_port_histogram (ingest_packet cb r pkt) = port_histogram_ingest cb (src_port_histogram r) tcp \<and>
         dst_port_histogram (ingest_packet cb r pkt) = port_histogram_ingest cb (dst_port_histogram r) tcp
     | None \<Rightarrow>
         src_port_histogram (ingest_packet cb r pkt) = src_port_histogram r \<and>
         dst_port_histogram (ingest_packet cb r pkt) = dst_port_histogram r)"
proof -
  have hdrs: "ip4 = ip4_from_bytes cb (ip_data pkt)"
    "ip6 = (case ip4 of Some d4 \<Rightarrow> None | None \<Rightarrow> ip6_from_bytes cb (ip_data pkt))"
    "optional_tcp = tcp_from_bytes cb
        (case ip4 of Some d4 \<Rightarrow> ip4_payload d4
         | None \<Rightarrow> (case ip6 of Some d6 \<Rightarrow> ip6_payload d6 | None \<Rightarrow> []))"
    using assms by (auto simp: extract_headers_def Let_def)
  have trees: "src_tree (ingest_packet cb r pkt) =
      (case ip6 of Some d6 \<Rightarrow> iptree_add cb (src_tree r) (ip6_src d6) 16
       | None \<Rightarrow> (case ip4 of Some d4 \<Rightarrow> iptree_add cb (src_tree r) (ip_src d4) 4 | None \<Rightarrow> src_tree r))"
    "dst_tree (ingest_packet cb r pkt) =
      (case ip6 of Some d6 \<Rightarrow> iptree_add cb (dst_tree r) (ip6_dst d6) 16
       | None \<Rightarrow> (case ip4 of Some d4 \<Rightarrow> iptree_add cb (dst_tree r) (ip_dst d4) 4 | None \<Rightarrow> dst_tree r))"
    by (simp_all add: ingest_packet_def assms children_pass_to_children children_kept split: option.split)
  have always: "bandwidth_histogram (ingest_packet cb r pkt) =
      time_histogram_ingest cb (bandwidth_histogram r) pkt optional_tcp"
    "pfall (ingest_packet cb r pkt) = packetfall_ingest cb (pfall r) pkt"
    by (simp_all add: ingest_packet_def assms children_pass_to_children children_kept split: option.split)
  have ports: "src_port_histogram (ingest_packet cb r pkt) =
      (case optional_tcp of Some tcp \<Rightarrow> port_histogram_ingest cb (src_port_histogram r) tcp
       | None \<Rightarrow> src_port_histogram r)"
    "dst_port_histogram (ingest_packet cb r pkt) =
      (case optional_tcp of Some tcp \<Rightarrow> port_histogram_ingest cb (dst_port_histogram r) tcp
       | None \<Rightarrow> dst_port_histogram r)"
    by (simp_all add: ingest_packet_def assms children_pass_to_children children_kept split: option.split)
  have t: "case ip6 of
       Some d6 \<Rightarrow>
         src_tree (ingest_packet cb r pkt) = iptree_add cb (src_tree r) (ip6_src d6) 16 \<and>
         dst_tree (ingest_packet cb r pkt) = iptree_add cb (dst_tree r) (ip6_dst d6) 16
     | None \<Rightarrow>
        (case ip4 of
           Some d4 \<Rightarrow>
             src_tree (ingest_packet cb r pkt) = iptree_add cb (src_tree r) (ip_src d4) 4 \<and>
             dst_tree (ingest_packet cb r pkt) = iptree_add cb (dst_tree r) (ip_dst d4) 4
         | None \<Rightarrow>
             src_tree (ingest_packet cb r pkt) = src_tree r \<and>
             dst_tree (ingest_packet cb r pkt) = dst_tree r)"
    by (simp add: trees split: option.split)
  have p: "case optional_tcp of
       Some tcp \<Rightarrow>
         src_port_histogram (ingest_packet cb r pkt) = port_histogram_ingest cb (src_port_histogram r) tcp \<and>
         dst_port_histogram (ingest_packet cb r pkt) = port_histogram_ingest cb (dst_port_histogram r) tcp
     | None \<Rightarrow>
         src_port_histogram (ingest_packet cb r pkt) = src_port_histogram r \<and>
         dst_port_histogram (ingest_packet cb r pkt) = dst_port_histogram r"
    by (simp add: ports split: option.split)
  from hdrs t always p show ?thesis
    by blast
qed

theorem dispatch_policy_witness:
  "extract_headers recording ip6_packet =
     (None, Some \<lparr> ip6_src = replicate 15 0 @ [1], ip6_dst = replicate 15 0 @ [2], ip6_payload = [17, 0] \<rparr>,
      None) \<and>
   src_tree (ingest_packet recording fresh_report ip6_packet) = [(replicate 15 0 @ [1], 16)] \<and>
   dst_tree (ingest_packet recording fresh_report ip6_packet) = [(replicate 15 0 @ [2], 16)] \<and>
   src_port_histogram (ingest_packet recording fresh_report ip6_packet) = [] \<and>
   bandwidth_histogram (ingest_packet recording fresh_report ip6_packet) = [(ip6_packet, None)] \<and>
   pfall (ingest_packet recording fresh_report ip6_packet) = [ip6_packet] \<and>
   extract_headers recording ip4_tcp_packet =
     (Some \<lparr> ip_src = [10, 0, 0, 1], ip_dst = [10, 0, 0, 2], ip4_payload = [6, 1, 2, 3] \<rparr>, None,
      Some \<lparr> tcp_header = [6], tcp_payload = [1, 2, 3] \<rparr>) \<and>
   src_tree (ingest_packet recording fresh_report ip4_tcp_packet) = [([10, 0, 0, 1], 4)] \<and>
   dst_tree (ingest_packet recording fresh_report ip4_tcp_packet) = [([10, 0, 0, 2], 4)] \<and>
   src_port_histogram (ingest_packet recording fresh_report ip4_tcp_packet) =
     [\<lparr> tcp_header = [6], tcp_payload = [1, 2, 3] \<rparr>] \<and>
   dst_port_histogram (ingest_packet recording fresh_report ip4_tcp_packet) =
     [\<lparr> tcp_header = [6], tcp_payload = [1, 2, 3] \<rparr>] \<and>
   extract_headers recording (arp_packet 3 4) = (None, None, None) \<and>
   src_tree (ingest_packet recording fresh_report (arp_packet 3 4)) = [] \<and>
   dst_tree (ingest_packet recording fresh_report (arp_packet 3 4)) = [] \<and>
   dst_port_histogram (ingest_packet recording fresh_report (arp_packet 3 4)) = [] \<and>
   pfall (ingest_packet recording fresh_report (arp_packet 3 4)) = [arp_packet 3 4]"
proof -
  have h6: "extract_headers recording ip6_packet =
     (None, Some \<lparr> ip6_src = replicate 15 0 @ [1], ip6_dst = replicate 15 0 @ [2], ip6_payload = [17, 0] \<rparr>,
      None)"
    by (simp add: extract_headers_def recording_def toy_ip4_from_bytes_def toy_ip6_from_bytes_def
        toy_tcp_from_bytes_def ip6_packet_def)
  have h4: "extract_headers recording ip4_tcp_packet =
     (Some \<lparr> ip_src = [10, 0, 0, 1], ip_dst = [10, 0, 0, 2], ip4_payload = [6, 1, 2, 3] \<rparr>, None,
      Some \<lparr> tcp_header = [6], tcp_payload = [1, 2, 3] \<rparr>)"
    by (simp add: extract_headers_def recording_def toy_ip4_from_bytes_def toy_ip6_from_bytes_def
        toy_tcp_from_bytes_def ip4_tcp_packet_def)
  have h0: "extract_headers recording (arp_packet 3 4) = (None, None, None)"
    by (simp add: extract_headers_def recording_def toy_ip4_from_bytes_def toy_ip6_from_bytes_def
        toy_tcp_from_bytes_def arp_packet_def)
  have init: "src_tree fresh_report = []" "dst_tree fresh_report = []"
    "src_port_histogram fresh_report = []" "dst_port_histogram fresh_report = []"
    "bandwidth_histogram fresh_report = []" "pfall fresh_report = []"
    by (simp_all add: fresh_report_def one_page_report_new_def)
  have calls: "iptree_add recording = (\<lambda>t addr len. t @ [(addr, len)])"
    "time_histogram_ingest recording = (\<lambda>h pkt tcp. h @ [(pkt, tcp)])"
    "port_histogram_ingest recording = (\<lambda>h tcp. h @ [tcp])"
    "packetfall_ingest recording = (\<lambda>w pkt. w @ [pkt])"
    by (simp_all add: recording_def)
  show ?thesis
    using dispatch_policy [OF h6, of fresh_report] dispatch_policy [OF h4, of fresh_report]
      dispatch_policy [OF h0, of fresh_report]
    by (simp add: h6 h4 h0 init calls)
qed

theorem ingest_counters_witness:
  "length [ip4_tcp_packet, ip6_packet, arp_packet 102 0] < 2 ^ 64 \<and>
   (\<Sum>p\<leftarrow>[ip4_tcp_packet, ip6_packet, arp_packet 102 0]. unat (caplen p)) < 2 ^ 64 \<and>
   unat (packet_count (ingest_all recording fresh_report [ip4_tcp_packet, ip6_packet, arp_packet 102 0])) = 3 \<and>
   unat (byte_count (ingest_all recording fresh_report [ip4_tcp_packet, ip6_packet, arp_packet 102 0])) = 224 \<and>
   transport_total
     (transport_counts (ingest_all recording fresh_report [ip4_tcp_packet, ip6_packet, arp_packet 102 0])) = 3 \<and>
   (\<Sum>j \<in> dom (transport_counts
        (ingest_all recording fresh_report [ip4_tcp_packet, ip6_packet, arp_packet 102 0])).
      unat (map_count (transport_counts
        (ingest_all recording fresh_report [ip4_tcp_packet, ip6_packet, arp_packet 102 0])) j)) = 3 \<and>
   map_count (transport_counts (ingest_packet recording fresh_report (arp_packet 102 0))) ETHERTYPE_ARP = 1 \<and>
   map_count (transport_counts (ingest_packet recording fresh_report (arp_packet 102 0))) ETHERTYPE_IP = 0"
proof -
  have len: "length [ip4_tcp_packet, ip6_packet, arp_packet 102 0] = 3"
    by simp
  have bytes: "(\<Sum>p\<leftarrow>[ip4_tcp_packet, ip6_packet, arp_packet 102 0]. unat (caplen p)) = 224"
    by (simp add: ip4_tcp_packet_def ip6_packet_def arp_packet_def)
  have tag: "ether_type (arp_packet 102 0) = ETHERTYPE_ARP" "ETHERTYPE_IP \<noteq> ETHERTYPE_ARP"
    "map_count (transport_counts fresh_report) j = 0" for j
    by (simp_all add: arp_packet_def ETHERTYPE_ARP_def ETHERTYPE_IP_def fresh_report_def
        one_page_report_new_def map_count_def)
  note t = ingest_counters [of recording "[]" "80::real" "65::real" "[]" "[]" "[]" "[]" "[]"
      "[ip4_tcp_packet, ip6_packet, arp_packet 102 0]" fresh_report "arp_packet 102 0" ETHERTYPE_ARP,
      folded fresh_report_def, unfolded len bytes]
  note u = ingest_counters [of recording "[]" "80::real" "65::real" "[]" "[]" "[]" "[]" "[]"
      "[ip4_tcp_packet, ip6_packet, arp_packet 102 0]" fresh_report "arp_packet 102 0" ETHERTYPE_IP,
      folded fresh_report_def, unfolded len bytes]
  from t u show ?thesis
    unfolding len bytes by (simp add: tag)
qed

section \<open>Rendering: properties\<close>

subsection \<open>Evaluation with the recording renderer\<close>

lemmas run_render =
  render_dual_histograms_top_n_def top_n_row_def top_n_row_texts_def render_text_def
  top_n_percentage_def percent_double_def uint8_of_double_def d_add_def d_sub_def d_mul_def
  d_div_def double_of_uint64_def stub_renderer_def stub_pass_def fresh_report_def
  one_page_report_new_def toy_text_extents_def zero_extents_def histogram_pad_factor_y_def
  address_histogram_pair_def port_histogram_pair_def address_histogram_width_divisor_def
  address_histogram_height_def Let_def

lemma stub_lists:
  "\<forall>h. address_top_list stub_renderer h = []" "\<forall>h. port_top_list stub_renderer h = []"
  "cairo_pdf_available stub_renderer"
  by (simp_all add: stub_renderer_def)

lemma one_arp_packet:
  "transport_counts (ingest_all recording fresh_report [arp_packet 100 5]) ETHERTYPE_IP = None"
  "transport_counts (ingest_all recording fresh_report [arp_packet 100 5]) ETHERTYPE_ARP = Some 1"
  "packet_count (ingest_all recording fresh_report [arp_packet 100 5]) = 1"
  by (simp_all add: run_ingest ETHERTYPE_IP_def ETHERTYPE_ARP_def)

subsection \<open>What the steps leave as it is\<close>

lemma render_text_frame:
  "report (fst (render_text rn text font_size x_offset s)) = report s"
  "surface_bounds (fst (render_text rn text font_size x_offset s)) = surface_bounds s"
  "end_of_content (fst (render_text rn text font_size x_offset s)) = end_of_content s"
  by (simp_all add: render_text_def Let_def)

lemma render_text_line_frame:
  "report (render_text_line rn text font_size line_space s) = report s"
  "surface_bounds (render_text_line rn text font_size line_space s) = surface_bounds s"
  by (simp_all add: render_text_line_def case_prod_beta render_text_frame)

text \<open>
  Whatever the conversion of \<open>log(byte_count) / log(1000)\<close> to \<open>uint64_t\<close> gives, the index
  that \<open>render_header\<close> passes to \<open>size_suffixes.at\<close> is in range: \<open>at\<close> does not throw.
\<close>

lemma size_suffix_in_range:
  "vector_at size_suffixes (unat (if length size_suffixes \<le> unat c then 0 else c)) =
     Some (size_suffixes ! unat (if length size_suffixes \<le> unat c then 0 else c))"
  by (simp add: vector_at_def size_suffixes_def build_size_suffixes_def)

lemma map_count_map_subscript: "map_count (map_subscript m k) j = map_count m j"
  by (simp add: map_count_def map_subscript_def split: option.splits)

lemma map_subscript_keeps: "m j = Some v \<Longrightarrow> map_subscript m k j = Some v"
  by (auto simp: map_subscript_def split: option.splits)

lemma report_render_header:
  "\<exists>s'. render_header rn s = Some s' \<and>
     report s' = (report s)\<lparr>transport_counts :=
       map_subscript (map_subscript (map_subscript (transport_counts (report s)) ETHERTYPE_IP)
         ETHERTYPE_IPV6) ETHERTYPE_ARP\<rparr> \<and>
     surface_bounds s' = surface_bounds s"
  by (simp add: render_header_def Let_def size_suffix_in_range render_text_line_frame)

lemma transport_total_map_subscript: "transport_total (map_subscript m k) = transport_total m"
proof (cases "m k")
  case (Some v)
  then show ?thesis
    by (simp add: map_subscript_def)
next
  case None
  then have k: "k \<notin> dom m" and ms: "map_subscript m k = m(k \<mapsto> 0)"
    by (auto simp: map_subscript_def)
  show ?thesis
  proof (cases "finite (dom m)")
    case True
    have "(\<Sum>j \<in> dom m. map_count (m(k \<mapsto> 0)) j) = (\<Sum>j \<in> dom m. map_count m j)"
      using k by (intro sum.cong) (auto simp: map_count_def)
    with True k show ?thesis
      by (simp add: transport_total_def ms map_count_def)
  next
    case False
    then show ?thesis
      by (simp add: transport_total_def ms)
  qed
qed

lemma map_subscript_inserts:
  "m k1 = None \<Longrightarrow> map_subscript (map_subscript (map_subscript m k1) k2) k3 k1 = Some 0"
  by (auto simp: map_subscript_def split: option.splits)

lemma render_text_frameD:
  "render_text rn t font_size x_offset s = (s1, e) \<Longrightarrow>
     report s1 = report s \<and> surface_bounds s1 = surface_bounds s \<and>
     end_of_content s1 = end_of_content s"
  using render_text_frame [of rn t font_size x_offset s] by simp

lemma top_n_row_texts_frame:
  assumes "top_n_row_texts rn ll rl ls rs lb rb ii s = Some (s', le, re)"
  shows "report s' = report s" "surface_bounds s' = surface_bounds s"
    "end_of_content s' = end_of_content s" "re = snd (indeterminate_extents rn s ii)"
  using assms
  by (auto simp: top_n_row_texts_def split: prod.splits option.splits if_splits
      dest!: render_text_frameD)

lemma top_n_row_frame:
  assumes "top_n_row rn ll rl ls rs lb rb ii s = Some s'"
  shows "report s' = report s" "surface_bounds s' = surface_bounds s"
  using assms
  by (auto simp: top_n_row_def split: prod.splits option.splits dest: top_n_row_texts_frame)

lemma top_n_rows_frame:
  "top_n_rows rn ll rl ls rs lb rb n ii s = Some s' \<Longrightarrow>
     report s' = report s \<and> surface_bounds s' = surface_bounds s"
proof (induction rn ll rl ls rs lb rb n ii s rule: top_n_rows.induct)
  case (1 rn ll rl ls rs lb rb n ii s)
  show ?case
  proof (cases "ii < n")
    case False
    with "1.prems" show ?thesis
      by (simp add: top_n_rows.simps)
  next
    case True
    with "1.prems" obtain s1 where row: "top_n_row rn ll rl ls rs lb rb ii s = Some s1"
      and rest: "top_n_rows rn ll rl ls rs lb rb n (Suc ii) s1 = Some s'"
      by (auto simp: top_n_rows.simps [of rn ll rl ls rs lb rb n ii s] split: option.splits)
    from "1.IH" [OF True row rest] top_n_row_frame [OF row] show ?thesis
      by simp
  qed
qed

lemma render_dual_histograms_top_n_frame:
  assumes "render_dual_histograms_top_n rn ll rl ls rs lb rb s = Some s'"
  shows "report s' = report s" "surface_bounds s' = surface_bounds s"
  using assms
  by (auto simp: render_dual_histograms_top_n_def split: option.splits dest: top_n_rows_frame)

subsection \<open>The percentage of an entry\<close>

lemma uint8_of_double_floor:
  "0 \<le> v \<Longrightarrow> v < 256 \<Longrightarrow> uint8_of_double v = Some (word_of_int \<lfloor>v\<rfloor>)"
proof -
  assume v: "0 \<le> v" "v < 256"
  then have "0 \<le> \<lfloor>v\<rfloor>" "\<lfloor>v\<rfloor> \<le> 255"
    by (simp_all add: floor_le_iff)
  with v show ?thesis
    by (simp add: uint8_of_double_def)
qed

text \<open>
  When the total of a side is 0 the percentage is 0 and nothing is divided. For a
  product from 0 up to 256 the conversion gives its integer part. Both hold for every
  rounding function.
\<close>

lemma top_n_percentage_zero_total:
  "top_n_percentage rn cnt 0 = Some 0"
  by (simp add: top_n_percentage_def)

lemma top_n_percentage_integer_part:
  assumes "tot \<noteq> 0" "0 \<le> percent_double rn cnt tot" "percent_double rn cnt tot < 256"
  shows "top_n_percentage rn cnt tot = Some (word_of_int \<lfloor>percent_double rn cnt tot\<rfloor>)"
  using assms by (simp add: top_n_percentage_def uint8_of_double_floor word_neq_0_conv)

text \<open>
  On a machine that rounded nothing the percentage would be \<open>100 * count div total\<close>.
\<close>

lemma top_n_percentage_without_rounding:
  assumes id: "\<forall>v. round_double rn v = v" and nz: "tot \<noteq> 0" and le: "cnt \<le> tot"
  shows "top_n_percentage rn cnt tot = Some (word_of_nat (100 * unat cnt div unat tot))"
proof -
  have t0: "0 < unat tot"
    using nz by (simp add: unat_gt_0)
  have cle: "unat cnt \<le> unat tot"
    using le by (simp add: word_le_nat_alt)
  have v: "percent_double rn cnt tot = real (100 * unat cnt) / real (unat tot)"
    using id by (simp add: percent_double_def d_mul_def d_div_def double_of_uint64_def)
  have fl: "\<lfloor>percent_double rn cnt tot\<rfloor> = int (100 * unat cnt div unat tot)"
    unfolding v by (rule floor_divide_of_nat_eq)
  have "100 * unat cnt div unat tot \<le> 100 * unat tot div unat tot"
    using cle by (intro div_le_mono) simp
  also have "\<dots> = 100"
    using t0 by simp
  finally have hi: "percent_double rn cnt tot < 256"
    using fl by linarith
  have "(0 :: real) \<le> of_int \<lfloor>percent_double rn cnt tot\<rfloor>"
    by (simp add: fl)
  then have lo: "0 \<le> percent_double rn cnt tot"
    using of_int_floor_le [of "percent_double rn cnt tot"] by linarith
  from nz lo hi fl show ?thesis
    by (simp add: top_n_percentage_def uint8_of_double_floor word_neq_0_conv)
qed

text \<open>
  binary64 does round. A positive \<open>x\<close> from \<open>2 powr e\<close> up to \<open>2 powr (e + 1)\<close> has the
  exponent \<open>e\<close>, which gives the rounded value once the significand is known.
\<close>

lemma floor_log2_eq:
  assumes "0 < x" "2 powr of_int e \<le> x" "x < 2 powr (of_int e + 1)"
  shows "\<lfloor>log 2 x\<rfloor> = e"
proof -
  from assms have "of_int e \<le> log 2 x"
    by (simp add: le_log_iff)
  moreover from assms have "log 2 x < of_int e + 1"
    by (simp add: log_less_iff)
  ultimately show ?thesis
    by (simp add: floor_eq_iff)
qed

lemma binary64_round_eq:
  assumes "0 < x" "2 powr of_int e \<le> x" "x < 2 powr (of_int e + 1)" "- 1022 \<le> e"
    and "round_half_even (x / 2 powr of_int (e - 52)) = m"
  shows "binary64_round x = 2 powr of_int (e - 52) * of_int m"
proof -
  from assms(1-3) have "\<lfloor>log 2 \<bar>x\<bar>\<rfloor> = e"
    by (simp add: floor_log2_eq)
  with assms show ?thesis
    by (simp add: binary64_round_def Let_def max_def)
qed

text \<open>
  29 and 100 are doubles. 29 / 100 is not: it lies between two doubles of exponent -2,
  at 0.36 of the way up from the lower one, \<open>5224175567749775 / 2 ^ 54\<close>, which is the
  quotient the machine gives. 100 times this quotient is below 29 and lies between two
  doubles of exponent 4, at 0.4375 of the way up from the lower one,
  \<open>8162774324609023 / 2 ^ 48\<close>: the product is the last double below 29.
\<close>

lemma binary64_round_29:
  "binary64_round 29 = 29"
  using binary64_round_eq [of 29 4 "29 * 2 ^ 48"]
  by (simp add: round_half_even_def powr_neg_numeral)

lemma binary64_round_100:
  "binary64_round 100 = 100"
  using binary64_round_eq [of 100 6 "100 * 2 ^ 46"]
  by (simp add: round_half_even_def powr_neg_numeral)

lemma binary64_round_29_of_100:
  "binary64_round (29 / 100) = 5224175567749775 / 2 ^ 54"
  using binary64_round_eq [of "29 / 100" "- 2" 5224175567749775]
  by (simp add: round_half_even_def powr_neg_numeral)

lemma binary64_round_product:
  "binary64_round (5224175567749775 / 2 ^ 54 * 100) = 8162774324609023 / 2 ^ 48"
  using binary64_round_eq [of "5224175567749775 / 2 ^ 54 * 100" 4 8162774324609023]
  by (simp add: round_half_even_def powr_neg_numeral)

lemma percent_double_29_of_100:
  assumes "round_double rn = binary64_round"
  shows "percent_double rn 29 100 = 8162774324609023 / 2 ^ 48"
proof -
  have "percent_double rn 29 100 =
      binary64_round (binary64_round (binary64_round 29 / binary64_round 100) * 100)"
    using assms by (simp add: percent_double_def d_mul_def d_div_def double_of_uint64_def)
  also have "\<dots> = binary64_round (5224175567749775 / 2 ^ 54 * 100)"
    by (simp only: binary64_round_29 binary64_round_100 binary64_round_29_of_100)
  also have "\<dots> = 8162774324609023 / 2 ^ 48"
    by (rule binary64_round_product)
  finally show ?thesis .
qed

text \<open>
  Claim C7 says that for a total other than 0 the percentage is the count divided by
  the total, times 100, truncated towards zero. For an entry counted 29 times of a
  total of 100 that is 29. The code divides and multiplies in \<open>double\<close> and truncates
  the product (lines 360 and 375): in binary64 the product of 29 / 100 and 100 is
  \<open>8162774324609023 / 2 ^ 48\<close>, below 29, and the percentage of the entry is 28.
\<close>

theorem top_n_percentage_29_of_100:
  "top_n_percentage binary64_renderer 29 100 = Some 28 \<and>
   percent_double binary64_renderer 29 100 = 8162774324609023 / 2 ^ 48 \<and>
   percent_double binary64_renderer 29 100 < 29 \<and>
   100 * unat (29 :: u64) div unat (100 :: u64) = 29"
proof -
  have rd: "round_double binary64_renderer = binary64_round"
    by (simp add: binary64_renderer_def)
  show ?thesis
    by (simp add: top_n_percentage_def percent_double_29_of_100 [OF rd] uint8_of_double_def)
qed

subsection \<open>The rows of the two top lists\<close>

lemma fold_bind_None:
  "fold (\<lambda>i acc. Option.bind acc (f i)) xs None = None"
  by (induction xs) simp_all

lemma top_n_rows_fold:
  "top_n_rows rn ll rl ls rs lb rb n ii s =
     fold (\<lambda>i acc. Option.bind acc (top_n_row rn ll rl ls rs lb rb i)) [ii..<n] (Some s)"
proof (induction rn ll rl ls rs lb rb n ii s rule: top_n_rows.induct)
  case (1 rn ll rl ls rs lb rb n ii s)
  show ?case
  proof (cases "ii < n")
    case False
    then show ?thesis
      by (simp add: top_n_rows.simps)
  next
    case True
    show ?thesis
    proof (cases "top_n_row rn ll rl ls rs lb rb ii s")
      case None
      with True show ?thesis
        by (simp add: top_n_rows.simps [of rn ll rl ls rs lb rb n ii s] upt_conv_Cons fold_bind_None)
    next
      case (Some s1)
      with True "1.IH" [OF True Some] show ?thesis
        by (simp add: top_n_rows.simps [of rn ll rl ls rs lb rb n ii s] upt_conv_Cons)
    qed
  qed
qed

lemma top_n_row_texts_no_entries:
  "length ll \<le> ii \<Longrightarrow> length rl \<le> ii \<Longrightarrow>
   top_n_row_texts rn ll rl ls rs lb rb ii s =
     Some (s, fst (indeterminate_extents rn s ii), snd (indeterminate_extents rn s ii))"
  by (simp add: top_n_row_texts_def case_prod_beta)

text \<open>
  Claim C10. The loop of \<open>render_dual_histograms_top_n\<close> runs the body once for each
  index from 0 up to the configured number of rows (3 in a new report), whatever the
  lengths of the two lists; only an undefined conversion stops it. Every run of the
  body that draws its texts ends by advancing the cursor, from where the row started,
  by the larger of the heights held in \<open>left_extents\<close> and \<open>right_extents\<close> times 1.5;
  a row for which neither list has an entry draws nothing and advances the cursor by
  that term all the same, with the values that the two variables hold uninitialised.
\<close>

theorem top_n_rows_every_iteration:
  "render_dual_histograms_top_n rn ll rl ls rs lb rb s =
     Option.bind
       (fold (\<lambda>ii acc. Option.bind acc (top_n_row rn ll rl ls rs lb rb ii))
          [0..<histogram_show_top_n_text (report s)] (Some s))
       (\<lambda>s'. Some (s'\<lparr>end_of_content :=
                 d_add rn (end_of_content s')
                   (d_mul rn (max (bounds_height lb) (bounds_height rb))
                      (d_sub rn histogram_pad_factor_y 1))\<rparr>)) \<and>
   (top_n_row_texts rn ll rl ls rs lb rb ii sr = Some (sx, le, re) \<longrightarrow>
      top_n_row rn ll rl ls rs lb rb ii sr =
        Some (sx\<lparr>end_of_content :=
               d_add rn (end_of_content sr)
                 (d_mul rn (max (extents_height le) (extents_height re)) (3 / 2))\<rparr>)) \<and>
   (length ll \<le> ii \<and> length rl \<le> ii \<longrightarrow>
      top_n_row rn ll rl ls rs lb rb ii sr =
        Some (sr\<lparr>end_of_content :=
               d_add rn (end_of_content sr)
                 (d_mul rn (max (extents_height (fst (indeterminate_extents rn sr ii)))
                              (extents_height (snd (indeterminate_extents rn sr ii)))) (3 / 2))\<rparr>)) \<and>
   histogram_show_top_n_text (one_page_report_new bw sa da sp dp pf st dt) = 3"
proof -
  have three: "histogram_show_top_n_text (one_page_report_new bw sa da sp dp pf st dt) = 3"
    by (simp add: one_page_report_new_def)
  have loop: "render_dual_histograms_top_n rn ll rl ls rs lb rb s =
     Option.bind
       (fold (\<lambda>ii acc. Option.bind acc (top_n_row rn ll rl ls rs lb rb ii))
          [0..<histogram_show_top_n_text (report s)] (Some s))
       (\<lambda>s'. Some (s'\<lparr>end_of_content :=
                 d_add rn (end_of_content s')
                   (d_mul rn (max (bounds_height lb) (bounds_height rb))
                      (d_sub rn histogram_pad_factor_y 1))\<rparr>))"
    by (simp add: render_dual_histograms_top_n_def top_n_rows_fold split: option.splits)
  have row: "top_n_row rn ll rl ls rs lb rb ii sr =
        Some (sx\<lparr>end_of_content :=
               d_add rn (end_of_content sr)
                 (d_mul rn (max (extents_height le) (extents_height re)) (3 / 2))\<rparr>)"
    if "top_n_row_texts rn ll rl ls rs lb rb ii sr = Some (sx, le, re)"
    using that top_n_row_texts_frame(3) [OF that] by (simp add: top_n_row_def)
  have none: "top_n_row rn ll rl ls rs lb rb ii sr =
        Some (sr\<lparr>end_of_content :=
               d_add rn (end_of_content sr)
                 (d_mul rn (max (extents_height (fst (indeterminate_extents rn sr ii)))
                              (extents_height (snd (indeterminate_extents rn sr ii)))) (3 / 2))\<rparr>)"
    if "length ll \<le> ii" "length rl \<le> ii"
    using that by (simp add: top_n_row_def top_n_row_texts_no_entries case_prod_beta)
  from loop row none three show ?thesis
    by blast
qed

theorem top_n_rows_every_iteration_witness:
  "top_n_row_texts stub_renderer [(''smtp'', 7)] [(''ssh'', 7)] 7 7
     \<lparr> bounds_x = 0, bounds_y = 0, bounds_width = 200, bounds_height = 100 \<rparr>
     \<lparr> bounds_x = 300, bounds_y = 0, bounds_width = 200, bounds_height = 100 \<rparr> 0 (stub_pass fresh_report) =
     Some ((stub_pass fresh_report)
             \<lparr>surface := [SetFontSize 8, SetSourceRgb 0 0 0, MoveTo 0 10, ShowText ''smtp'',
                          SetFontSize 8, SetSourceRgb 0 0 0, MoveTo 300 8, ShowText ''ssh'']\<rparr>,
           toy_text_extents ''ssh'', zero_extents) \<and>
   map_option end_of_content
     (top_n_row stub_renderer [(''smtp'', 7)] [(''ssh'', 7)] 7 7
        \<lparr> bounds_x = 0, bounds_y = 0, bounds_width = 200, bounds_height = 100 \<rparr>
        \<lparr> bounds_x = 300, bounds_y = 0, bounds_width = 200, bounds_height = 100 \<rparr> 0
        (stub_pass fresh_report)) = Some 12 \<and>
   length [(''smtp'', 7 :: u64)] \<le> 1 \<and> length [(''ssh'', 7 :: u64)] \<le> 1 \<and>
   top_n_row stub_renderer [(''smtp'', 7)] [(''ssh'', 7)] 7 7
     \<lparr> bounds_x = 0, bounds_y = 0, bounds_width = 200, bounds_height = 100 \<rparr>
     \<lparr> bounds_x = 300, bounds_y = 0, bounds_width = 200, bounds_height = 100 \<rparr> 1
     (stub_pass fresh_report) = Some ((stub_pass fresh_report)\<lparr>end_of_content := 0\<rparr>)"
proof -
  have texts: "top_n_row_texts stub_renderer [(''smtp'', 7)] [(''ssh'', 7)] 7 7
     \<lparr> bounds_x = 0, bounds_y = 0, bounds_width = 200, bounds_height = 100 \<rparr>
     \<lparr> bounds_x = 300, bounds_y = 0, bounds_width = 200, bounds_height = 100 \<rparr> 0 (stub_pass fresh_report) =
     Some ((stub_pass fresh_report)
             \<lparr>surface := [SetFontSize 8, SetSourceRgb 0 0 0, MoveTo 0 10, ShowText ''smtp'',
                          SetFontSize 8, SetSourceRgb 0 0 0, MoveTo 300 8, ShowText ''ssh'']\<rparr>,
           toy_text_extents ''ssh'', zero_extents)"
    by (simp add: run_render)
  have lens: "length [(''smtp'', 7 :: u64)] \<le> 1 \<and> length [(''ssh'', 7 :: u64)] \<le> 1"
    by simp
  have vals: "end_of_content (stub_pass fresh_report) = 0" "round_double stub_renderer = (\<lambda>v. v)"
    "extents_height (toy_text_extents ''ssh'') = 8" "extents_height zero_extents = 0"
    "indeterminate_extents stub_renderer = (\<lambda>s ii. (zero_extents, zero_extents))"
    by (simp_all add: stub_pass_def stub_renderer_def toy_text_extents_def zero_extents_def)
  note t = top_n_rows_every_iteration [where rn = stub_renderer and ll = "[(''smtp'', 7)]"
      and rl = "[(''ssh'', 7)]" and sr = "stub_pass fresh_report"]
  from t [THEN conjunct2, THEN conjunct1, rule_format, OF texts]
    t [THEN conjunct2, THEN conjunct2, THEN conjunct1, rule_format, OF lens] texts lens
  show ?thesis
    by (simp add: vals d_add_def d_mul_def)
qed

text \<open>
  In a row for which the right list has an entry, what \<open>left_extents\<close> holds at the end of
  the body is the measure of the right text, and \<open>right_extents\<close> holds what it held
  uninitialised.
\<close>

lemma top_n_row_texts_right_entry:
  assumes "ii < length rl"
    and "top_n_row_texts rn ll rl ls rs lb rb ii s = Some (s', le, re)"
  shows "\<exists>percentage s1.
      top_n_percentage rn (snd (rl ! ii)) rs = Some percentage \<and>
      le = snd (render_text rn (fmt_top_entry rn (ii + 1) (fst (rl ! ii)) (snd (rl ! ii)) percentage)
                  (top_list_font_size (report s1)) (bounds_x rb) s1) \<and>
      re = snd (indeterminate_extents rn s ii)"
  using assms
  by (auto simp: top_n_row_texts_def split: prod.splits option.splits if_splits)
    (metis snd_conv)+

text \<open>
  Claim C9 says that a row advances the cursor by the larger of the measured heights of
  its two texts, times 1.5. The call of \<open>render_text\<close> for the right text is given
  \<open>left_extents\<close> (line 382): the height of the left text is overwritten and
  \<open>right_extents\<close> is read as it was declared. With a left text 10 units high, a right
  text 8 units high and zeros in the uninitialised variable, the first row advances the
  cursor by \<open>max 8 0 * 1.5 = 12\<close> where the claim gives \<open>max 10 8 * 1.5 = 15\<close>; the two
  rows without entries and the final adjustment add 0.
\<close>

theorem top_n_row_height_at_failing_input:
  "map_option end_of_content
     (render_dual_histograms_top_n stub_renderer [(''smtp'', 7)] [(''ssh'', 7)] 7 7
        \<lparr> bounds_x = 0, bounds_y = 0, bounds_width = 200, bounds_height = 100 \<rparr>
        \<lparr> bounds_x = 300, bounds_y = 0, bounds_width = 200, bounds_height = 100 \<rparr>
        (stub_pass fresh_report)) = Some 12 \<and>
   extents_height (toy_text_extents ''smtp'') = 10 \<and>
   extents_height (toy_text_extents ''ssh'') = 8 \<and>
   max (extents_height (toy_text_extents ''smtp'')) (extents_height (toy_text_extents ''ssh'')) * (3 / 2)
     = 15"
  by (simp add: run_render top_n_rows.simps)

subsection \<open>The pairs of histograms\<close>

text \<open>
  Claim C5. In \<open>render_address_histograms\<close> and in \<open>render_port_histograms\<close>, once the
  two histograms are drawn the cursor is advanced by the larger of the heights of the
  two bounds as the two \<open>render\<close> calls left them (not by their sum, their mean or the
  height that was asked for), and \<open>render_dual_histograms_top_n\<close> goes on from there.
\<close>

theorem histogram_pair_advance:
  "(w = d_div rn (bounds_width (surface_bounds s)) address_histogram_width_divisor \<and>
    address_histogram_render_iptree rn (src_addr_histogram (report s)) (surface s)
      \<lparr> bounds_x = 0, bounds_y = end_of_content s, bounds_width = w,
        bounds_height = address_histogram_height \<rparr> (src_tree (report s)) = (sa, cr1, lb, st) \<and>
    address_histogram_render_iptree rn (dst_addr_histogram (report s)) cr1
      \<lparr> bounds_x = d_sub rn (bounds_width (surface_bounds s)) w, bounds_y = end_of_content s,
        bounds_width = w, bounds_height = address_histogram_height \<rparr> (dst_tree (report s)) =
      (da, cr2, rb, dt) \<longrightarrow>
    end_of_content (fst (address_histogram_pair rn s)) =
      d_add rn (end_of_content s) (max (bounds_height lb) (bounds_height rb)) \<and>
    render_address_histograms rn s =
      render_dual_histograms_top_n rn (address_top_list rn sa) (address_top_list rn da)
        (address_count_sum rn sa) (address_count_sum rn da) lb rb (fst (address_histogram_pair rn s))) \<and>
   (w = d_div rn (bounds_width (surface_bounds s)) address_histogram_width_divisor \<and>
    port_histogram_render rn (src_port_histogram (report s)) (surface s)
      \<lparr> bounds_x = 0, bounds_y = end_of_content s, bounds_width = w,
        bounds_height = address_histogram_height \<rparr> = (sp, pcr1, plb) \<and>
    port_histogram_render rn (dst_port_histogram (report s)) pcr1
      \<lparr> bounds_x = d_sub rn (bounds_width (surface_bounds s)) w, bounds_y = end_of_content s,
        bounds_width = w, bounds_height = address_histogram_height \<rparr> = (dp, pcr2, prb) \<longrightarrow>
    end_of_content (fst (port_histogram_pair rn s)) =
      d_add rn (end_of_content s) (max (bounds_height plb) (bounds_height prb)) \<and>
    render_port_histograms rn s =
      render_dual_histograms_top_n rn (port_top_list rn sp) (port_top_list rn dp)
        (port_count_sum rn sp) (port_count_sum rn dp) plb prb (fst (port_histogram_pair rn s)))"
proof -
  have addr: "end_of_content (fst (address_histogram_pair rn s)) =
      d_add rn (end_of_content s) (max (bounds_height lb) (bounds_height rb)) \<and>
    render_address_histograms rn s =
      render_dual_histograms_top_n rn (address_top_list rn sa) (address_top_list rn da)
        (address_count_sum rn sa) (address_count_sum rn da) lb rb (fst (address_histogram_pair rn s))"
    if "w = d_div rn (bounds_width (surface_bounds s)) address_histogram_width_divisor"
      and "address_histogram_render_iptree rn (src_addr_histogram (report s)) (surface s)
        \<lparr> bounds_x = 0, bounds_y = end_of_content s, bounds_width = w,
          bounds_height = address_histogram_height \<rparr> (src_tree (report s)) = (sa, cr1, lb, st)"
      and "address_histogram_render_iptree rn (dst_addr_histogram (report s)) cr1
        \<lparr> bounds_x = d_sub rn (bounds_width (surface_bounds s)) w, bounds_y = end_of_content s,
          bounds_width = w, bounds_height = address_histogram_height \<rparr> (dst_tree (report s)) =
        (da, cr2, rb, dt)"
    using that by (simp add: address_histogram_pair_def render_address_histograms_def Let_def)
  have port: "end_of_content (fst (port_histogram_pair rn s)) =
      d_add rn (end_of_content s) (max (bounds_height plb) (bounds_height prb)) \<and>
    render_port_histograms rn s =
      render_dual_histograms_top_n rn (port_top_list rn sp) (port_top_list rn dp)
        (port_count_sum rn sp) (port_count_sum rn dp) plb prb (fst (port_histogram_pair rn s))"
    if "w = d_div rn (bounds_width (surface_bounds s)) address_histogram_width_divisor"
      and "port_histogram_render rn (src_port_histogram (report s)) (surface s)
        \<lparr> bounds_x = 0, bounds_y = end_of_content s, bounds_width = w,
          bounds_height = address_histogram_height \<rparr> = (sp, pcr1, plb)"
      and "port_histogram_render rn (dst_port_histogram (report s)) pcr1
        \<lparr> bounds_x = d_sub rn (bounds_width (surface_bounds s)) w, bounds_y = end_of_content s,
          bounds_width = w, bounds_height = address_histogram_height \<rparr> = (dp, pcr2, prb)"
    using that by (simp add: port_histogram_pair_def render_port_histograms_def Let_def)
  from addr port show ?thesis
    by blast
qed

theorem histogram_pair_advance_witness:
  "bounds_height (fst (snd (snd (snd (snd (snd (address_histogram_pair stub_renderer (stub_pass fresh_report)))))))) = 80 \<and>
   bounds_height (snd (snd (snd (snd (snd (snd (address_histogram_pair stub_renderer (stub_pass fresh_report)))))))) = 65 \<and>
   end_of_content (stub_pass fresh_report) = 0 \<and>
   end_of_content (fst (address_histogram_pair stub_renderer (stub_pass fresh_report))) = 80 \<and>
   end_of_content (fst (port_histogram_pair stub_renderer (stub_pass fresh_report))) = 100"
proof -
  have w: "(200 :: real) =
      d_div stub_renderer (bounds_width (surface_bounds (stub_pass fresh_report)))
        address_histogram_width_divisor"
    by (simp add: run_render)
  have l: "address_histogram_render_iptree stub_renderer (src_addr_histogram (report (stub_pass fresh_report)))
      (surface (stub_pass fresh_report))
      \<lparr> bounds_x = 0, bounds_y = end_of_content (stub_pass fresh_report), bounds_width = 200,
        bounds_height = address_histogram_height \<rparr> (src_tree (report (stub_pass fresh_report))) =
      (80, [Plot ''addresses'' \<lparr> bounds_x = 0, bounds_y = 0, bounds_width = 200, bounds_height = 100 \<rparr>],
       \<lparr> bounds_x = 0, bounds_y = 0, bounds_width = 200, bounds_height = 80 \<rparr>, [])"
    by (simp add: run_render)
  have r: "address_histogram_render_iptree stub_renderer (dst_addr_histogram (report (stub_pass fresh_report)))
      [Plot ''addresses'' \<lparr> bounds_x = 0, bounds_y = 0, bounds_width = 200, bounds_height = 100 \<rparr>]
      \<lparr> bounds_x = d_sub stub_renderer (bounds_width (surface_bounds (stub_pass fresh_report))) 200,
        bounds_y = end_of_content (stub_pass fresh_report), bounds_width = 200,
        bounds_height = address_histogram_height \<rparr> (dst_tree (report (stub_pass fresh_report))) =
      (65, [Plot ''addresses'' \<lparr> bounds_x = 0, bounds_y = 0, bounds_width = 200, bounds_height = 100 \<rparr>,
            Plot ''addresses'' \<lparr> bounds_x = 300, bounds_y = 0, bounds_width = 200, bounds_height = 100 \<rparr>],
       \<lparr> bounds_x = 300, bounds_y = 0, bounds_width = 200, bounds_height = 65 \<rparr>, [])"
    by (simp add: run_render)
  have pl: "port_histogram_render stub_renderer (src_port_histogram (report (stub_pass fresh_report)))
      (surface (stub_pass fresh_report))
      \<lparr> bounds_x = 0, bounds_y = end_of_content (stub_pass fresh_report), bounds_width = 200,
        bounds_height = address_histogram_height \<rparr> =
      ([], [Plot ''ports'' \<lparr> bounds_x = 0, bounds_y = 0, bounds_width = 200, bounds_height = 100 \<rparr>],
       \<lparr> bounds_x = 0, bounds_y = 0, bounds_width = 200, bounds_height = 100 \<rparr>)"
    by (simp add: run_render)
  have pr: "port_histogram_render stub_renderer (dst_port_histogram (report (stub_pass fresh_report)))
      [Plot ''ports'' \<lparr> bounds_x = 0, bounds_y = 0, bounds_width = 200, bounds_height = 100 \<rparr>]
      \<lparr> bounds_x = d_sub stub_renderer (bounds_width (surface_bounds (stub_pass fresh_report))) 200,
        bounds_y = end_of_content (stub_pass fresh_report), bounds_width = 200,
        bounds_height = address_histogram_height \<rparr> =
      ([], [Plot ''ports'' \<lparr> bounds_x = 0, bounds_y = 0, bounds_width = 200, bounds_height = 100 \<rparr>,
            Plot ''ports'' \<lparr> bounds_x = 300, bounds_y = 0, bounds_width = 200, bounds_height = 100 \<rparr>],
       \<lparr> bounds_x = 300, bounds_y = 0, bounds_width = 200, bounds_height = 100 \<rparr>)"
    by (simp add: run_render)
  have e0: "end_of_content (stub_pass fresh_report) = 0" and rd: "round_double stub_renderer = (\<lambda>v. v)"
    by (simp_all add: stub_pass_def stub_renderer_def)
  have hs: "bounds_height (fst (snd (snd (snd (snd (snd (address_histogram_pair stub_renderer (stub_pass fresh_report)))))))) = 80"
    "bounds_height (snd (snd (snd (snd (snd (snd (address_histogram_pair stub_renderer (stub_pass fresh_report)))))))) = 65"
    by (simp_all add: run_render)
  from histogram_pair_advance [THEN conjunct1, rule_format, OF conjI [OF w conjI [OF l r]]]
    histogram_pair_advance [THEN conjunct2, rule_format, OF conjI [OF w conjI [OF pl pr]]]
  show ?thesis
    by (simp add: e0 hs d_add_def rd)
qed

subsection \<open>The report during the pass\<close>

lemma tallies_kept_refl: "tallies_kept r r"
  by (simp add: tallies_kept_def)

lemma tallies_kept_trans: "tallies_kept r1 r2 \<Longrightarrow> tallies_kept r2 r3 \<Longrightarrow> tallies_kept r1 r3"
  by (simp add: tallies_kept_def)

lemma tallies_kept_subscripts:
  "tallies_kept r (r\<lparr>transport_counts :=
       map_subscript (map_subscript (map_subscript (transport_counts r) k1) k2) k3\<rparr>)"
  by (simp add: tallies_kept_def map_count_map_subscript map_subscript_keeps)

lemma tallies_kept_children:
  "tallies_kept r (r\<lparr>bandwidth_histogram := h\<rparr>)"
  "tallies_kept r (r\<lparr>pfall := w\<rparr>)"
  "tallies_kept r (r\<lparr>src_addr_histogram := sa, src_tree := st, dst_addr_histogram := da, dst_tree := dt\<rparr>)"
  "tallies_kept r (r\<lparr>src_port_histogram := sp, dst_port_histogram := dp\<rparr>)"
  by (simp_all add: tallies_kept_def)

lemma render_header_tallies:
  "\<exists>s'. render_header rn s = Some s' \<and> tallies_kept (report s) (report s')"
  using report_render_header [of rn s] by (auto simp: tallies_kept_subscripts)

lemma render_bandwidth_histogram_tallies:
  "tallies_kept (report s) (report (render_bandwidth_histogram rn s))"
  by (simp add: render_bandwidth_histogram_def tallies_kept_children split: prod.splits)

lemma render_packetfall_tallies:
  "tallies_kept (report s) (report (render_packetfall rn s))"
  by (simp add: render_packetfall_def tallies_kept_children split: prod.splits)

lemma render_map_tallies: "tallies_kept (report s) (report (render_map rn s))"
  by (simp add: render_map_def tallies_kept_refl)

lemma address_histogram_pair_tallies:
  "tallies_kept (report s) (report (fst (address_histogram_pair rn s)))"
  by (simp add: address_histogram_pair_def Let_def tallies_kept_children split: prod.splits)

lemma port_histogram_pair_tallies:
  "tallies_kept (report s) (report (fst (port_histogram_pair rn s)))"
  by (simp add: port_histogram_pair_def Let_def tallies_kept_children split: prod.splits)

lemma render_address_histograms_tallies:
  assumes "render_address_histograms rn s = Some s'"
  shows "tallies_kept (report s) (report s')"
proof -
  obtain s1 ll rl ls rs lb rb where pair: "address_histogram_pair rn s = (s1, ll, rl, ls, rs, lb, rb)"
    by (metis prod_cases7)
  with assms have "render_dual_histograms_top_n rn ll rl ls rs lb rb s1 = Some s'"
    by (simp add: render_address_histograms_def)
  then have "report s' = report s1"
    by (rule render_dual_histograms_top_n_frame)
  with address_histogram_pair_tallies [of s rn] pair show ?thesis
    by simp
qed

lemma render_port_histograms_tallies:
  assumes "render_port_histograms rn s = Some s'"
  shows "tallies_kept (report s) (report s')"
proof -
  obtain s1 ll rl ls rs lb rb where pair: "port_histogram_pair rn s = (s1, ll, rl, ls, rs, lb, rb)"
    by (metis prod_cases7)
  with assms have "render_dual_histograms_top_n rn ll rl ls rs lb rb s1 = Some s'"
    by (simp add: render_port_histograms_def)
  then have "report s' = report s1"
    by (rule render_dual_histograms_top_n_frame)
  with port_histogram_pair_tallies [of s rn] pair show ?thesis
    by simp
qed

lemma report_render_pass_new: "report (render_pass_new rn r outdir) = r"
  by (simp add: render_pass_new_def Let_def)

lemma render_steps:
  assumes "render rn r outdir = Some (r', cr)" and "cairo_pdf_available rn"
  obtains s1 s2 s3 where "render_header rn (render_pass_new rn r outdir) = Some s1"
    "render_address_histograms rn
       (render_packetfall rn (render_map rn (render_bandwidth_histogram rn s1))) = Some s2"
    "render_port_histograms rn s2 = Some s3" "r' = report s3"
  using assms by (auto simp: render_def split: option.splits)

lemma render_tallies:
  assumes "render rn r outdir = Some (r', cr)"
  shows "tallies_kept r r'"
proof (cases "cairo_pdf_available rn")
  case False
  with assms show ?thesis
    by (simp add: render_def tallies_kept_refl)
next
  case True
  with assms obtain s1 s2 s3 where
    h: "render_header rn (render_pass_new rn r outdir) = Some s1"
    and a: "render_address_histograms rn
        (render_packetfall rn (render_map rn (render_bandwidth_histogram rn s1))) = Some s2"
    and p: "render_port_histograms rn s2 = Some s3"
    and res: "r' = report s3"
    by (rule render_steps)
  from render_header_tallies [of rn "render_pass_new rn r outdir"] h
  have t1: "tallies_kept r (report s1)"
    by (simp add: report_render_pass_new)
  have t2: "tallies_kept (report s1) (report (render_bandwidth_histogram rn s1))"
    by (rule render_bandwidth_histogram_tallies)
  have t3: "tallies_kept (report (render_bandwidth_histogram rn s1))
      (report (render_map rn (render_bandwidth_histogram rn s1)))"
    by (rule render_map_tallies)
  have t4: "tallies_kept (report (render_map rn (render_bandwidth_histogram rn s1)))
      (report (render_packetfall rn (render_map rn (render_bandwidth_histogram rn s1))))"
    by (rule render_packetfall_tallies)
  from a have t5: "tallies_kept
      (report (render_packetfall rn (render_map rn (render_bandwidth_histogram rn s1)))) (report s2)"
    by (rule render_address_histograms_tallies)
  from p have t6: "tallies_kept (report s2) (report s3)"
    by (rule render_port_histograms_tallies)
  from t1 t2 t3 t4 t5 t6 show ?thesis
    unfolding res by (blast intro: tallies_kept_trans)
qed

lemma top_n_row_texts_defined:
  assumes "\<forall>i < length ll. top_n_percentage rn (snd (ll ! i)) ls \<noteq> None"
    and "\<forall>i < length rl. top_n_percentage rn (snd (rl ! i)) rs \<noteq> None"
  shows "top_n_row_texts rn ll rl ls rs lb rb ii s \<noteq> None"
  using assms by (auto simp: top_n_row_texts_def case_prod_beta split: option.splits)

lemma top_n_row_defined:
  assumes "\<forall>i < length ll. top_n_percentage rn (snd (ll ! i)) ls \<noteq> None"
    and "\<forall>i < length rl. top_n_percentage rn (snd (rl ! i)) rs \<noteq> None"
  shows "top_n_row rn ll rl ls rs lb rb ii s \<noteq> None"
  using top_n_row_texts_defined [OF assms, of lb rb ii s]
  by (auto simp: top_n_row_def split: option.splits)

lemma top_n_rows_defined:
  assumes "\<forall>i < length ll. top_n_percentage rn (snd (ll ! i)) ls \<noteq> None"
    and "\<forall>i < length rl. top_n_percentage rn (snd (rl ! i)) rs \<noteq> None"
  shows "top_n_rows rn ll rl ls rs lb rb n ii s \<noteq> None"
  using assms
proof (induction rn ll rl ls rs lb rb n ii s rule: top_n_rows.induct)
  case (1 rn ll rl ls rs lb rb n ii s)
  show ?case
  proof (cases "ii < n")
    case False
    then show ?thesis
      by (simp add: top_n_rows.simps)
  next
    case True
    from top_n_row_defined [OF "1.prems", of lb rb ii s]
    obtain s1 where row: "top_n_row rn ll rl ls rs lb rb ii s = Some s1"
      by auto
    from "1.IH" [OF True row "1.prems"] True row show ?thesis
      by (simp add: top_n_rows.simps [of rn ll rl ls rs lb rb n ii s])
  qed
qed

lemma render_dual_histograms_top_n_defined:
  assumes "\<forall>i < length ll. top_n_percentage rn (snd (ll ! i)) ls \<noteq> None"
    and "\<forall>i < length rl. top_n_percentage rn (snd (rl ! i)) rs \<noteq> None"
  shows "render_dual_histograms_top_n rn ll rl ls rs lb rb s \<noteq> None"
  using top_n_rows_defined [OF assms, of lb rb "histogram_show_top_n_text (report s)" 0 s]
  by (auto simp: render_dual_histograms_top_n_def split: option.splits)

lemma transport_counts_steps:
  "transport_counts (report (render_bandwidth_histogram rn s)) = transport_counts (report s)"
  "transport_counts (report (render_packetfall rn s)) = transport_counts (report s)"
  "transport_counts (report (render_map rn s)) = transport_counts (report s)"
  "transport_counts (report (fst (address_histogram_pair rn s))) = transport_counts (report s)"
  "transport_counts (report (fst (port_histogram_pair rn s))) = transport_counts (report s)"
  by (simp_all add: render_bandwidth_histogram_def render_packetfall_def render_map_def
      address_histogram_pair_def port_histogram_pair_def Let_def split: prod.splits)

lemma report_render_address_histograms:
  assumes "render_address_histograms rn s = Some s'"
  shows "report s' = report (fst (address_histogram_pair rn s))"
proof -
  obtain s1 ll rl ls rs lb rb where pair: "address_histogram_pair rn s = (s1, ll, rl, ls, rs, lb, rb)"
    by (metis prod_cases7)
  with assms have "render_dual_histograms_top_n rn ll rl ls rs lb rb s1 = Some s'"
    by (simp add: render_address_histograms_def)
  then have "report s' = report s1"
    by (rule render_dual_histograms_top_n_frame)
  with pair show ?thesis
    by simp
qed

lemma report_render_port_histograms:
  assumes "render_port_histograms rn s = Some s'"
  shows "report s' = report (fst (port_histogram_pair rn s))"
proof -
  obtain s1 ll rl ls rs lb rb where pair: "port_histogram_pair rn s = (s1, ll, rl, ls, rs, lb, rb)"
    by (metis prod_cases7)
  with assms have "render_dual_histograms_top_n rn ll rl ls rs lb rb s1 = Some s'"
    by (simp add: render_port_histograms_def)
  then have "report s' = report s1"
    by (rule render_dual_histograms_top_n_frame)
  with pair show ?thesis
    by simp
qed

lemma render_transport_counts:
  assumes "render rn r outdir = Some (r', cr)" and "cairo_pdf_available rn"
  shows "transport_counts r' =
     map_subscript (map_subscript (map_subscript (transport_counts r) ETHERTYPE_IP)
       ETHERTYPE_IPV6) ETHERTYPE_ARP"
proof -
  from assms obtain s1 s2 s3 where
    h: "render_header rn (render_pass_new rn r outdir) = Some s1"
    and a: "render_address_histograms rn
       (render_packetfall rn (render_map rn (render_bandwidth_histogram rn s1))) = Some s2"
    and p: "render_port_histograms rn s2 = Some s3" and res: "r' = report s3"
    by (rule render_steps)
  from report_render_header [of rn "render_pass_new rn r outdir"] h
  have "transport_counts (report s1) =
     map_subscript (map_subscript (map_subscript (transport_counts r) ETHERTYPE_IP)
       ETHERTYPE_IPV6) ETHERTYPE_ARP"
    by (auto simp: report_render_pass_new)
  moreover have "transport_counts (report s2) = transport_counts (report s1)"
    by (simp add: report_render_address_histograms [OF a] transport_counts_steps)
  moreover have "transport_counts (report s3) = transport_counts (report s2)"
    by (simp add: report_render_port_histograms [OF p] transport_counts_steps)
  ultimately show ?thesis
    by (simp add: res)
qed

lemma render_defined:
  assumes "\<forall>h. address_top_list rn h = []" and "\<forall>h. port_top_list rn h = []"
  shows "render rn r outdir \<noteq> None"
proof (cases "cairo_pdf_available rn")
  case False
  then show ?thesis
    by (simp add: render_def)
next
  case True
  have e: "\<exists>y. render_dual_histograms_top_n rn [] [] ls rs lb rb s = Some y" for ls rs lb rb s
    using render_dual_histograms_top_n_defined [of "[]" rn ls "[]" rs lb rb s] by auto
  have addr: "render_address_histograms rn s \<noteq> None" for s
    using assms(1)
    by (auto simp: render_address_histograms_def address_histogram_pair_def Let_def e
        split: prod.splits)
  have port: "render_port_histograms rn s \<noteq> None" for s
    using assms(2)
    by (auto simp: render_port_histograms_def port_histogram_pair_def Let_def e
        split: prod.splits)
  from report_render_header [of rn "render_pass_new rn r outdir"]
  obtain s1 where h: "render_header rn (render_pass_new rn r outdir) = Some s1"
    by blast
  from addr obtain s2 where a: "render_address_histograms rn
       (render_packetfall rn (render_map rn (render_bandwidth_histogram rn s1))) = Some s2"
    by blast
  from port obtain s3 where p: "render_port_histograms rn s2 = Some s3"
    by blast
  from True h a p show ?thesis
    by (simp add: render_def)
qed

text \<open>
  Claim C6 says that a render pass leaves the report as it was. \<open>render_header\<close> reads
  the counts of the IPv4, IPv6 and ARP tags with \<open>operator[]\<close>, which gives a tag that was
  never counted an entry with the count 0: after one ARP packet, the report has an
  entry for IPv4 after the pass and had none before.
\<close>

theorem render_modifies_transport_counts:
  "render stub_renderer (ingest_all recording fresh_report [arp_packet 100 5]) ''out'' \<noteq> None \<and>
   map_option fst (render stub_renderer (ingest_all recording fresh_report [arp_packet 100 5]) ''out'')
     \<noteq> Some (ingest_all recording fresh_report [arp_packet 100 5])"
proof -
  from render_defined [OF stub_lists(1,2)]
  obtain r' cr where
    eq: "render stub_renderer (ingest_all recording fresh_report [arp_packet 100 5]) ''out'' = Some (r', cr)"
    by fastforce
  from render_transport_counts [OF eq stub_lists(3)]
  have "transport_counts r' ETHERTYPE_IP = Some 0"
    by (simp add: map_subscript_inserts one_arp_packet)
  with one_arp_packet(1) have "r' \<noteq> ingest_all recording fresh_report [arp_packet 100 5]"
    by auto
  with eq show ?thesis
    by simp
qed

text \<open>
  Claim C6, amended. A render pass leaves the source identifier, \<open>packet_count\<close>,
  \<open>byte_count\<close>, \<open>earliest\<close> and \<open>latest\<close> of the report as they were, and every transport tag
  keeps its count: a tag counts the same before and after (0 without an entry), an
  entry that was there is still there with its count, and the sum of the counts is the
  same.
\<close>

theorem render_keeps_tallies:
  assumes "render rn r outdir = Some (r', cr)"
  shows "source_identifier r' = source_identifier r \<and> packet_count r' = packet_count r \<and>
    byte_count r' = byte_count r \<and> earliest r' = earliest r \<and> latest r' = latest r \<and>
    (\<forall>k. map_count (transport_counts r') k = map_count (transport_counts r) k) \<and>
    (\<forall>k v. transport_counts r k = Some v \<longrightarrow> transport_counts r' k = Some v) \<and>
    transport_total (transport_counts r') = transport_total (transport_counts r)"
proof -
  have "transport_total (transport_counts r') = transport_total (transport_counts r)"
  proof (cases "cairo_pdf_available rn")
    case True
    from render_transport_counts [OF assms True] show ?thesis
      by (simp add: transport_total_map_subscript)
  next
    case False
    with assms show ?thesis
      by (simp add: render_def)
  qed
  with render_tallies [OF assms] show ?thesis
    by (simp add: tallies_kept_def)
qed

theorem render_keeps_tallies_witness:
  "render stub_renderer (ingest_all recording fresh_report [arp_packet 100 5]) ''out'' \<noteq> None \<and>
   packet_count
     (fst (the (render stub_renderer (ingest_all recording fresh_report [arp_packet 100 5]) ''out''))) = 1 \<and>
   transport_counts
     (fst (the (render stub_renderer (ingest_all recording fresh_report [arp_packet 100 5]) ''out'')))
     ETHERTYPE_ARP = Some 1"
proof -
  from render_defined [OF stub_lists(1,2)]
  obtain r' cr where
    eq: "render stub_renderer (ingest_all recording fresh_report [arp_packet 100 5]) ''out'' = Some (r', cr)"
    by fastforce
  from render_keeps_tallies [OF eq] show ?thesis
    by (simp add: eq one_arp_packet)
qed

end
